theory Spec2Isabelle
  imports Complex_Main "HOL-Library.AList"
begin

chapter \<open>The metric visualization and the selection formatter\<close>

section \<open>JavaScript values\<close>

text \<open>
  A JavaScript \<open>number\<close> is a finite value, one of the two infinities, or \<open>NaN\<close>.
  Finite values are modelled by the reals they denote: arithmetic is exact (no rounding to
  53 bits) and zero carries no sign. Comparisons with \<open>NaN\<close> are false, as in the language.
\<close>

datatype number = NaN | NegInf | Fin real | PosInf

fun num_lt :: "number \<Rightarrow> number \<Rightarrow> bool" where
  "num_lt NaN b = False"
| "num_lt a NaN = False"
| "num_lt PosInf b = False"
| "num_lt a NegInf = False"
| "num_lt NegInf b = True"
| "num_lt a PosInf = True"
| "num_lt (Fin x) (Fin y) = (x < y)"

fun num_le :: "number \<Rightarrow> number \<Rightarrow> bool" where
  "num_le NaN b = False"
| "num_le a NaN = False"
| "num_le NegInf b = True"
| "num_le a PosInf = True"
| "num_le PosInf b = False"
| "num_le a NegInf = False"
| "num_le (Fin x) (Fin y) = (x \<le> y)"

definition num_gt :: "number \<Rightarrow> number \<Rightarrow> bool" where
  "num_gt a b = num_lt b a"

datatype js_error = TypeError

text \<open>Reading an array at an index: \<open>undefined\<close> (here \<open>None\<close>) outside the array.\<close>

definition js_nth :: "'a list \<Rightarrow> int \<Rightarrow> 'a option" where
  "js_nth xs i = (if 0 \<le> i \<and> i < int (length xs) then Some (xs ! nat i) else None)"

text \<open>lodash \<open>findIndex\<close>: the index of the first element satisfying the predicate, else \<open>-1\<close>.\<close>

primrec findIndex :: "'a list \<Rightarrow> ('a \<Rightarrow> bool) \<Rightarrow> int" where
  "findIndex [] p = - 1"
| "findIndex (x # xs) p =
     (if p x then 0 else (let i = findIndex xs p in if i = - 1 then - 1 else i + 1))"

text \<open>lodash \<open>last\<close>: the last element, \<open>undefined\<close> for an empty array.\<close>

definition last_opt :: "'a list \<Rightarrow> 'a option" where
  "last_opt xs = (if xs = [] then None else Some (last xs))"

section \<open>Configuration of the metric visualization\<close>

record Range =
  range_from :: number
  range_to :: number

record style_config =
  style_labelColor :: bool
  style_bgColor :: bool

record metric_config =
  percentageMode :: bool
  colorsRange :: "Range list"
  invertColors :: bool
  colorSchema :: string
  style :: style_config

text \<open>
  The configuration of the spec's examples: the ranges \<open>[0, 10)\<close>, \<open>[10, 20)\<close>, \<open>[20, 30)\<close>,
  with the four flags left open.
\<close>

definition example_ranges :: "Range list" where
  "example_ranges = [\<lparr>range_from = Fin 0, range_to = Fin 10\<rparr>,
                     \<lparr>range_from = Fin 10, range_to = Fin 20\<rparr>,
                     \<lparr>range_from = Fin 20, range_to = Fin 30\<rparr>]"

definition example_config :: "bool \<Rightarrow> bool \<Rightarrow> bool \<Rightarrow> bool \<Rightarrow> metric_config" where
  "example_config percentage invert labelColor bgColor =
     \<lparr>percentageMode = percentage, colorsRange = example_ranges, invertColors = invert,
      colorSchema = ''Green to Red'',
      style = \<lparr>style_labelColor = labelColor, style_bgColor = bgColor\<rparr>\<rparr>"

section \<open>getBucket\<close>

definition getBucket :: "metric_config \<Rightarrow> number \<Rightarrow> js_error + int" where
  "getBucket config val =
     (let bucket = findIndex (colorsRange config)
                     (\<lambda>range. num_le (range_from range) val \<and> num_gt (range_to range) val)
      in if bucket = - 1
         then (case js_nth (colorsRange config) 0 of
                 None \<Rightarrow> Inl TypeError
               | Some r0 \<Rightarrow>
                   if num_lt val (range_from r0) then Inr 0
                   else Inr (int (length (colorsRange config)) - 1))
         else Inr bucket)"

text \<open>
  The spec's vocabulary: a value lies in a range when \<open>from \<le> v < to\<close>; a sequence of ranges
  is ordered and non-overlapping when every range ends no later than each later range begins.
\<close>

definition in_range :: "Range \<Rightarrow> number \<Rightarrow> bool" where
  "in_range r v = (num_le (range_from r) v \<and> num_lt v (range_to r))"

fun ordered_ranges :: "Range list \<Rightarrow> bool" where
  "ordered_ranges [] = True"
| "ordered_ranges (r # rs) =
     (list_all (\<lambda>s. num_le (range_to r) (range_from s)) rs \<and> ordered_ranges rs)"

section \<open>Arithmetic on numbers\<close>

text \<open>
  The operators \<open>-\<close>, \<open>*\<close>, \<open>/\<close> and \<open>Math.round\<close> with their special cases: \<open>NaN\<close> is absorbing,
  \<open>Infinity - Infinity\<close>, \<open>0 * Infinity\<close>, \<open>Infinity / Infinity\<close> and \<open>0 / 0\<close> are \<open>NaN\<close>, and a
  non-zero finite value divided by zero is an infinity of the dividend's sign (zero being
  unsigned here).
\<close>

fun num_neg :: "number \<Rightarrow> number" where
  "num_neg NaN = NaN"
| "num_neg NegInf = PosInf"
| "num_neg PosInf = NegInf"
| "num_neg (Fin x) = Fin (- x)"

fun num_add :: "number \<Rightarrow> number \<Rightarrow> number" where
  "num_add NaN b = NaN"
| "num_add a NaN = NaN"
| "num_add (Fin x) (Fin y) = Fin (x + y)"
| "num_add (Fin x) b = b"
| "num_add a (Fin y) = a"
| "num_add PosInf PosInf = PosInf"
| "num_add NegInf NegInf = NegInf"
| "num_add PosInf NegInf = NaN"
| "num_add NegInf PosInf = NaN"

definition num_sub :: "number \<Rightarrow> number \<Rightarrow> number" where
  "num_sub a b = num_add a (num_neg b)"

text \<open>An infinity of the given sign; \<open>NaN\<close> for sign zero.\<close>

definition signed_inf :: "real \<Rightarrow> number" where
  "signed_inf s = (if s = 0 then NaN else if 0 < s then PosInf else NegInf)"

fun num_mul :: "number \<Rightarrow> number \<Rightarrow> number" where
  "num_mul NaN b = NaN"
| "num_mul a NaN = NaN"
| "num_mul (Fin x) (Fin y) = Fin (x * y)"
| "num_mul (Fin x) PosInf = signed_inf x"
| "num_mul (Fin x) NegInf = signed_inf (- x)"
| "num_mul PosInf (Fin y) = signed_inf y"
| "num_mul NegInf (Fin y) = signed_inf (- y)"
| "num_mul PosInf PosInf = PosInf"
| "num_mul NegInf NegInf = PosInf"
| "num_mul PosInf NegInf = NegInf"
| "num_mul NegInf PosInf = NegInf"

fun num_div :: "number \<Rightarrow> number \<Rightarrow> number" where
  "num_div NaN b = NaN"
| "num_div a NaN = NaN"
| "num_div (Fin x) (Fin y) = (if y = 0 then signed_inf x else Fin (x / y))"
| "num_div (Fin x) b = Fin 0"
| "num_div PosInf (Fin y) = (if 0 \<le> y then PosInf else NegInf)"
| "num_div NegInf (Fin y) = (if 0 \<le> y then NegInf else PosInf)"
| "num_div a b = NaN"

text \<open>\<open>Math.round\<close>: the nearest integer, a half rounding up.\<close>

fun Math_round :: "number \<Rightarrow> number" where
  "Math_round (Fin x) = Fin (of_int \<lfloor>x + 1 / 2\<rfloor>)"
| "Math_round a = a"

section \<open>Numbers as text\<close>

text \<open>
  A template literal turns a number into text by the language's \<open>Number::toString\<close>. The
  functions below take that conversion as the parameter \<open>toStr\<close>. For the examples,
  \<open>show_integral\<close> is the conversion on the values it is used on there: \<open>NaN\<close>, the infinities
  and the integers of magnitude below \<open>10\<^sup>2\<^sup>1\<close>, which print as their decimal digits.
\<close>

definition digit_char :: "nat \<Rightarrow> char" where
  "digit_char d = ''0123456789'' ! d"

fun digits10 :: "nat \<Rightarrow> string" where
  "digits10 n = (if n < 10 then [digit_char n] else digits10 (n div 10) @ [digit_char (n mod 10)])"

declare digits10.simps [simp del]

fun show_integral :: "number \<Rightarrow> string" where
  "show_integral NaN = ''NaN''"
| "show_integral PosInf = ''Infinity''"
| "show_integral NegInf = ''-Infinity''"
| "show_integral (Fin x) = (if x < 0 then ''-'' else []) @ digits10 (nat \<lfloor>\<bar>x\<bar>\<rfloor>)"

section \<open>Array iteration\<close>

text \<open>
  \<open>Array.prototype.forEach\<close> with a callback that updates local state (here: pushes onto an
  array): the callback receives the element, its index and the state; an exception raised
  by the callback ends the iteration.
\<close>

fun forEach :: "'a list \<Rightarrow> ('a \<Rightarrow> nat \<Rightarrow> 's \<Rightarrow> js_error + 's) \<Rightarrow> nat \<Rightarrow> 's \<Rightarrow> js_error + 's" where
  "forEach [] f i s = Inr s"
| "forEach (x # xs) f i s =
     (case f x i s of Inl e \<Rightarrow> Inl e | Inr s' \<Rightarrow> forEach xs f (Suc i) s')"

section \<open>getLabels and getColors\<close>

definition getLabels :: "(number \<Rightarrow> string) \<Rightarrow> metric_config \<Rightarrow> js_error + string list" where
  "getLabels toStr config =
     (let isPercentageMode = percentageMode config in
      case last_opt (colorsRange config) of
        None \<Rightarrow> Inl TypeError
      | Some l \<Rightarrow>
          (let max_to = range_to l in
           forEach (colorsRange config)
             (\<lambda>range _ labels.
                let from = (if isPercentageMode
                            then Math_round (num_div (num_mul (Fin 100) (range_from range)) max_to)
                            else range_from range);
                    to = (if isPercentageMode
                          then Math_round (num_div (num_mul (Fin 100) (range_to range)) max_to)
                          else range_to range)
                in Inr (labels @ [toStr from @ '' - '' @ toStr to]))
             0 []))"

text \<open>
  The \<open>colors\<close> object: its string keys in insertion order, each with one value; assigning to
  a key that is present replaces the value in place.
\<close>

type_synonym colors = "(string \<times> string) list"

definition divider :: "metric_config \<Rightarrow> int" where
  "divider config = max (int (length (colorsRange config)) - 1) 1"

definition color_val :: "metric_config \<Rightarrow> nat \<Rightarrow> number" where
  "color_val config i =
     (if invertColors config
      then num_sub (Fin 1) (num_div (Fin (real i)) (Fin (real_of_int (divider config))))
      else num_div (Fin (real i)) (Fin (real_of_int (divider config))))"

function getColors_loop ::
  "(number \<Rightarrow> string \<Rightarrow> string) \<Rightarrow> metric_config \<Rightarrow> string list \<Rightarrow> nat \<Rightarrow> colors \<Rightarrow> colors" where
  "getColors_loop getHeatmapColors config labels i colors =
     (if i < length labels
      then getColors_loop getHeatmapColors config labels (i + 1)
             (AList.update (labels ! i) (getHeatmapColors (color_val config i) (colorSchema config))
                colors)
      else colors)"
  by pat_completeness auto
termination
  by (relation "measure (\<lambda>(h, c, labels, i, cs). length labels - i)") auto

declare getColors_loop.simps [simp del]

definition getColors ::
  "(number \<Rightarrow> string \<Rightarrow> string) \<Rightarrow> (number \<Rightarrow> string) \<Rightarrow> metric_config \<Rightarrow> js_error + colors" where
  "getColors getHeatmapColors toStr config =
     (case getLabels toStr config of
        Inl e \<Rightarrow> Inl e
      | Inr labels \<Rightarrow> Inr (getColors_loop getHeatmapColors config labels 0 []))"


text \<open>The spec's label of a range: \<open>"{from} - {to}"\<close>, each bound as a rounded percentage of
  \<open>max\<close> in percentage mode.\<close>

definition spec_label :: "(number \<Rightarrow> string) \<Rightarrow> bool \<Rightarrow> number \<Rightarrow> Range \<Rightarrow> string" where
  "spec_label toStr percentage max_to r =
     (if percentage
      then toStr (Math_round (num_div (num_mul (Fin 100) (range_from r)) max_to)) @ '' - '' @
           toStr (Math_round (num_div (num_mul (Fin 100) (range_to r)) max_to))
      else toStr (range_from r) @ '' - '' @ toStr (range_to r))"

text \<open>A heatmap color scale for the examples: the ratio as the red component.\<close>

definition example_heatmap :: "number \<Rightarrow> string \<Rightarrow> string" where
  "example_heatmap v schema =
     ''rgb('' @ show_integral (Math_round (num_mul (Fin 255) v)) @ '',0,0)''"

text \<open>
  Ranges whose bounds round to the same percentages: \<open>[0, 1)\<close>, \<open>[1, 2)\<close>, \<open>[2, 1000)\<close> in
  percentage mode.
\<close>

definition skewed_config :: metric_config where
  "skewed_config =
     \<lparr>percentageMode = True,
      colorsRange = [\<lparr>range_from = Fin 0, range_to = Fin 1\<rparr>,
                     \<lparr>range_from = Fin 1, range_to = Fin 2\<rparr>,
                     \<lparr>range_from = Fin 2, range_to = Fin 1000\<rparr>],
      invertColors = False, colorSchema = ''Green to Red'',
      style = \<lparr>style_labelColor = True, style_bgColor = True\<rparr>\<rparr>"

section \<open>Cell values and field formatters\<close>

text \<open>
  The values a table cell can hold (the primitive ones), and lodash \<open>isNaN\<close>, which is true of
  the number \<open>NaN\<close> and of nothing else: not of \<open>undefined\<close>, nor of a string that is not
  numeric.
\<close>

datatype jsvalue = JUndefined | JNull | JBool bool | JNum number | JStr string

fun lodash_isNaN :: "jsvalue \<Rightarrow> bool" where
  "lodash_isNaN (JNum NaN) = True"
| "lodash_isNaN v = False"

datatype content_type = Text | Html

text \<open>A field formatter, of which the component calls \<open>convert(value, contentType)\<close> only.\<close>

record IFieldFormat =
  convert :: "jsvalue \<Rightarrow> content_type \<Rightarrow> string"

text \<open>The third parameter is optional and defaults to \<open>'text'\<close>.\<close>

definition getFormattedValue :: "IFieldFormat \<Rightarrow> jsvalue \<Rightarrow> content_type option \<Rightarrow> string" where
  "getFormattedValue fieldFormatter val format_arg =
     (let format = (case format_arg of None \<Rightarrow> Text | Some f \<Rightarrow> f)
      in if lodash_isNaN val then ''-'' else convert fieldFormatter val format)"

section \<open>getFormattedSelection\<close>

text \<open>
  Modelled from the spec: the result of the duration formatter, \<open>{ value, unit, formatted }\<close>,
  whose declaration is not among the sources. The type of \<open>value\<close> is left open; the template
  literal turns it into text by \<open>toStr\<close>.
\<close>

record 'v ConvertedDuration =
  dur_value :: 'v
  dur_unit :: string
  dur_formatted :: string

definition getFormattedSelection ::
  "('v \<Rightarrow> string) \<Rightarrow> (number \<Rightarrow> number \<Rightarrow> 'v ConvertedDuration) \<Rightarrow> number \<times> number \<Rightarrow> string" where
  "getFormattedSelection toStr getDurationFormatter selection =
     (let from = getDurationFormatter (fst selection) (fst selection);
          to = getDurationFormatter (snd selection) (snd selection)
      in (if dur_unit from = dur_unit to then toStr (dur_value from) else dur_formatted from) @
         '' - '' @ dur_formatted to)"

text \<open>
  A duration formatter for the examples: the formatter chosen for a value below \<open>10000\<close>
  renders milliseconds, the one chosen for any other value renders whole seconds.
\<close>

definition example_duration_formatter :: "number \<Rightarrow> number \<Rightarrow> number ConvertedDuration" where
  "example_duration_formatter threshold x =
     (if num_lt threshold (Fin 10000)
      then \<lparr>dur_value = x, dur_unit = ''ms'', dur_formatted = show_integral x @ '' ms''\<rparr>
      else \<lparr>dur_value = Math_round (num_div x (Fin 1000)), dur_unit = ''s'',
            dur_formatted = show_integral (Math_round (num_div x (Fin 1000))) @ '' s''\<rparr>)"

text \<open>A field formatter for the examples: numbers as integers, text as it is.\<close>

fun example_convert :: "jsvalue \<Rightarrow> content_type \<Rightarrow> string" where
  "example_convert (JNum n) t = show_integral (Math_round n)"
| "example_convert (JStr s) t = s"
| "example_convert v t = ''''"

section \<open>The rgb pattern\<close>

text \<open>
  Strings are sequences of code units below 256. In that range the class \<open>\s\<close> holds the
  characters U+0009 to U+000D, the space and the no-break space U+00A0; \<open>\d\<close> is \<open>0\<close> to \<open>9\<close>.
\<close>

definition is_space :: "char \<Rightarrow> bool" where
  "is_space c = (of_char c \<in> {9, 10, 11, 12, 13, 32, 160 :: nat})"

definition is_digit :: "char \<Rightarrow> bool" where
  "is_digit c = (48 \<le> (of_char c :: nat) \<and> (of_char c :: nat) \<le> 57)"

text \<open>
  The fragment of regular expressions the pattern is written in: a sequence of literal texts,
  greedy repetitions \<open>c*\<close> of a character class, and capture groups \<open>(c+)\<close> around a greedy
  non-empty repetition of a class.
\<close>

datatype re_item = Lit string | Star "char \<Rightarrow> bool" | GroupPlus "char \<Rightarrow> bool"

primrec first_some :: "'a option list \<Rightarrow> 'a option" where
  "first_some [] = None"
| "first_some (x # xs) = (case x of Some v \<Rightarrow> Some v | None \<Rightarrow> first_some xs)"

text \<open>
  Backtracking match of a sequence of items at the start of a string; the result is the list
  of captured texts. A repetition first takes as many characters as the class allows and
  gives them back one at a time while the rest of the pattern fails.
\<close>

fun match_items :: "re_item list \<Rightarrow> string \<Rightarrow> string list option" where
  "match_items [] s = Some []"
| "match_items (Lit l # items) s =
     (if take (length l) s = l then match_items items (drop (length l) s) else None)"
| "match_items (Star c # items) s =
     first_some (map (\<lambda>k. match_items items (drop k s))
                   (rev [0..<Suc (length (takeWhile c s))]))"
| "match_items (GroupPlus c # items) s =
     first_some (map (\<lambda>k. map_option ((#) (take k s)) (match_items items (drop k s)))
                   (rev [1..<Suc (length (takeWhile c s))]))"

text \<open>\<open>RegExp.prototype.exec\<close> without flags: the match at the leftmost position that has one.\<close>

definition regex_exec :: "re_item list \<Rightarrow> string \<Rightarrow> string list option" where
  "regex_exec items s =
     first_some (map (\<lambda>i. match_items items (drop i s)) [0..<Suc (length s)])"

text \<open>The pattern \<^verbatim>\<open>/rgb\(\s*(\d+)\s*,\s*(\d+)\s*,\s*(\d+)\s*\)/\<close>.\<close>

definition rgb_pattern :: "re_item list" where
  "rgb_pattern =
     [Lit ''rgb('', Star is_space, GroupPlus is_digit, Star is_space, Lit '','',
      Star is_space, GroupPlus is_digit, Star is_space, Lit '','',
      Star is_space, GroupPlus is_digit, Star is_space, Lit '')'']"

text \<open>
  \<open>parseInt(text, 10)\<close>: leading white space and a sign are skipped, the decimal digits that
  follow are read, and the result is \<open>NaN\<close> when there is none.
\<close>

definition digit_val :: "char \<Rightarrow> nat" where
  "digit_val c = of_char c - 48"

definition nat_of_digits :: "string \<Rightarrow> nat" where
  "nat_of_digits ds = foldl (\<lambda>acc c. 10 * acc + digit_val c) 0 ds"

definition parseInt10 :: "string \<Rightarrow> number" where
  "parseInt10 s =
     (let t = dropWhile is_space s;
          negative = (case t of c # _ \<Rightarrow> c = CHR ''-'' | [] \<Rightarrow> False);
          u = (case t of c # r \<Rightarrow> if c = CHR ''-'' \<or> c = CHR ''+'' then r else t | [] \<Rightarrow> t);
          ds = takeWhile is_digit u
      in if ds = [] then NaN
         else if negative then Fin (- real (nat_of_digits ds))
         else Fin (real (nat_of_digits ds)))"

section \<open>needsLightText\<close>

text \<open>
  The captures are destructured into \<open>red\<close>, \<open>green\<close>, \<open>blue\<close>; a missing element would be
  \<open>undefined\<close>, which as a number is \<open>NaN\<close>.
\<close>

definition needsLightText :: "(number \<Rightarrow> number \<Rightarrow> number \<Rightarrow> bool) \<Rightarrow> string \<Rightarrow> bool" where
  "needsLightText isColorDark bgColor =
     (case regex_exec rgb_pattern bgColor of
        None \<Rightarrow> False
      | Some colors \<Rightarrow>
          (let parsed = map parseInt10 colors;
               component = (\<lambda>i. case js_nth parsed i of None \<Rightarrow> NaN | Some c \<Rightarrow> c)
           in isColorDark (component 0) (component 1) (component 2)))"

text \<open>
  The spec's reading of a text that matches the pattern: it contains \<open>rgb(\<close>, three non-empty
  runs of digits separated by commas, and \<open>)\<close>, with optional white space around each run.
\<close>

definition spaces :: "string \<Rightarrow> bool" where
  "spaces w = (\<forall>c\<in>set w. is_space c)"

definition digits :: "string \<Rightarrow> bool" where
  "digits d = (d \<noteq> [] \<and> (\<forall>c\<in>set d. is_digit c))"

definition rgb_text :: "string \<Rightarrow> string \<Rightarrow> string \<Rightarrow> string \<Rightarrow> bool" where
  "rgb_text s r g b =
     (\<exists>pre w1 w2 w3 w4 w5 w6 post.
        s = pre @ ''rgb('' @ w1 @ r @ w2 @ '','' @ w3 @ g @ w4 @ '','' @ w5 @ b @ w6 @ '')'' @ post \<and>
        spaces w1 \<and> spaces w2 \<and> spaces w3 \<and> spaces w4 \<and> spaces w5 \<and> spaces w6 \<and>
        digits r \<and> digits g \<and> digits b)"

text \<open>A darkness judgment for the examples: dark when the components sum to less than 384.\<close>

fun example_isColorDark :: "number \<Rightarrow> number \<Rightarrow> number \<Rightarrow> bool" where
  "example_isColorDark (Fin r) (Fin g) (Fin b) = (r + g + b < 384)"
| "example_isColorDark r g b = False"

text \<open>
  What it means for a sequence of items to match at the start of a string with given
  captures, stated without reference to the order in which a matcher tries the alternatives.
\<close>

fun sem_items :: "re_item list \<Rightarrow> string \<Rightarrow> string list \<Rightarrow> bool" where
  "sem_items [] s caps = (caps = [])"
| "sem_items (Lit l # items) s caps = (\<exists>t. s = l @ t \<and> sem_items items t caps)"
| "sem_items (Star c # items) s caps =
     (\<exists>w t. s = w @ t \<and> (\<forall>x\<in>set w. c x) \<and> sem_items items t caps)"
| "sem_items (GroupPlus c # items) s caps =
     (\<exists>w t rest. s = w @ t \<and> w \<noteq> [] \<and> (\<forall>x\<in>set w. c x) \<and> caps = w # rest \<and>
        sem_items items t rest)"

section \<open>Tables, dimensions and metric descriptors\<close>

record Column =
  column_id :: string
  column_name :: string

text \<open>A row maps column ids to cell values; reading an absent id gives \<open>undefined\<close>.\<close>

type_synonym Row = "string \<Rightarrow> jsvalue option"

definition row_get :: "Row \<Rightarrow> string \<Rightarrow> jsvalue" where
  "row_get row key = (case row key of None \<Rightarrow> JUndefined | Some v \<Rightarrow> v)"

record Datatable =
  columns :: "Column list"
  rows :: "Row list"

text \<open>A dimension names a column by its index and carries a serialized field format.\<close>

record 'f SchemaConfig =
  accessor :: int
  format :: 'f

record 'f Dimensions =
  metrics :: "'f SchemaConfig list"
  bucket :: "'f SchemaConfig option"

record MetricVisMetric =
  label :: string
  "value" :: string
  color :: "string option"
  bgColor :: "string option"
  lightText :: bool
  rowIndex :: nat

text \<open>
  The collaborators of the component and the two conversions of the language it relies on:
  \<open>Number::toString\<close> in template literals and \<open>StringToNumber\<close> where a cell holding text is
  compared or subtracted.
\<close>

record 'f services =
  getHeatmapColors :: "number \<Rightarrow> string \<Rightarrow> string"
  isColorDark :: "number \<Rightarrow> number \<Rightarrow> number \<Rightarrow> bool"
  deserialize :: "'f \<Rightarrow> IFieldFormat"
  Number_toString :: "number \<Rightarrow> string"
  StringToNumber :: "string \<Rightarrow> number"

text \<open>\<open>ToNumber\<close>, applied to a cell by \<open><=\<close>, \<open><\<close>, \<open>>\<close> against a number and by \<open>-\<close>.\<close>

fun ToNumber :: "(string \<Rightarrow> number) \<Rightarrow> jsvalue \<Rightarrow> number" where
  "ToNumber p JUndefined = NaN"
| "ToNumber p JNull = Fin 0"
| "ToNumber p (JBool b) = Fin (if b then 1 else 0)"
| "ToNumber p (JNum n) = n"
| "ToNumber p (JStr s) = p s"

text \<open>A property key or a text to match that is \<open>undefined\<close> reads as the text \<open>undefined\<close>.\<close>

definition ToString_opt :: "string option \<Rightarrow> string" where
  "ToString_opt s = (case s of None \<Rightarrow> ''undefined'' | Some t \<Rightarrow> t)"

section \<open>getColor and processTableGroups\<close>

definition getColor :: "metric_config \<Rightarrow> number \<Rightarrow> string list \<Rightarrow> colors \<Rightarrow> js_error + string option" where
  "getColor config val labels colors =
     (case getBucket config val of
        Inl e \<Rightarrow> Inl e
      | Inr bucket' \<Rightarrow>
          (let label' = js_nth labels bucket'
           in Inr (map_of colors (ToString_opt label'))))"

text \<open>
  The body of the callback of \<open>table.rows.forEach\<close>, up to the \<open>push\<close>: the descriptor of one
  row for one metric dimension. \<open>column\<close> is \<open>table.columns[columnIndex]\<close>, possibly
  \<open>undefined\<close>; \<open>bucketColumn\<close> holds \<open>bucketColumnId\<close> and \<open>bucketFormatter\<close>, which are set
  together.
\<close>

definition processRow ::
  "'f services \<Rightarrow> metric_config \<Rightarrow> number \<Rightarrow> number \<Rightarrow> string list \<Rightarrow> colors \<Rightarrow>
   (string \<times> IFieldFormat) option \<Rightarrow> Column option \<Rightarrow> IFieldFormat \<Rightarrow> Row \<Rightarrow> nat \<Rightarrow>
   js_error + MetricVisMetric" where
  "processRow sv config min_from max_to labels colors bucketColumn column formatter row rowIndex' =
     (case column of
        None \<Rightarrow> Inl TypeError
      | Some col \<Rightarrow>
          (let title = column_name col;
               val = row_get row (column_id col)
           in case getColor config (ToNumber (StringToNumber sv) val) labels colors of
                Inl e \<Rightarrow> Inl e
              | Inr color' \<Rightarrow>
                  (let val = (if percentageMode config
                              then JNum (num_div (num_sub (ToNumber (StringToNumber sv) val) min_from)
                                           (num_sub max_to min_from))
                              else val);
                       val = getFormattedValue formatter val (Some Html);
                       title = (case bucketColumn of
                                  None \<Rightarrow> title
                                | Some (bucketColumnId, bucketFormatter) \<Rightarrow>
                                    if bucketColumnId \<noteq> ''''
                                    then (let bucketValue = getFormattedValue bucketFormatter
                                                              (row_get row bucketColumnId) None
                                          in bucketValue @ '' - '' @ title)
                                    else title);
                       shouldColor = (length (colorsRange config) > 1)
                   in Inr \<lparr>label = title,
                           value = val,
                           color = (if shouldColor \<and> style_labelColor (style config)
                                    then color' else None),
                           bgColor = (if shouldColor \<and> style_bgColor (style config)
                                      then color' else None),
                           lightText = (shouldColor \<and> style_bgColor (style config) \<and>
                                        needsLightText (isColorDark sv) (ToString_opt color')),
                           rowIndex = rowIndex'\<rparr>)))"

text \<open>
  The block guarded by \<open>if (dimensions.bucket)\<close>: the id of the bucket column and the bucket
  formatter, or neither when there is no bucket dimension.
\<close>

definition bucketColumn_of ::
  "'f services \<Rightarrow> 'f Dimensions \<Rightarrow> Datatable \<Rightarrow> js_error + (string \<times> IFieldFormat) option" where
  "bucketColumn_of sv dimensions table =
     (case bucket dimensions of
        None \<Rightarrow> Inr None
      | Some b \<Rightarrow>
          (case js_nth (columns table) (accessor b) of
             None \<Rightarrow> Inl TypeError
           | Some c \<Rightarrow> Inr (Some (column_id c, deserialize sv (format b)))))"

definition processTableGroups ::
  "'f services \<Rightarrow> metric_config \<Rightarrow> 'f Dimensions \<Rightarrow> Datatable \<Rightarrow> js_error + MetricVisMetric list" where
  "processTableGroups sv config dimensions table =
     (case js_nth (colorsRange config) 0 of
        None \<Rightarrow> Inl TypeError
      | Some r0 \<Rightarrow>
     (case last_opt (colorsRange config) of
        None \<Rightarrow> Inl TypeError
      | Some l \<Rightarrow>
     (case getColors (getHeatmapColors sv) (Number_toString sv) config of
        Inl e \<Rightarrow> Inl e
      | Inr colors \<Rightarrow>
     (case getLabels (Number_toString sv) config of
        Inl e \<Rightarrow> Inl e
      | Inr labels \<Rightarrow>
     (case bucketColumn_of sv dimensions table of
        Inl e \<Rightarrow> Inl e
      | Inr bucketColumn \<Rightarrow>
          forEach (metrics dimensions)
            (\<lambda>metric _ metrics'.
               let columnIndex = accessor metric;
                   column = js_nth (columns table) columnIndex;
                   formatter = deserialize sv (format metric)
               in forEach (rows table)
                    (\<lambda>row rowIndex' metrics'.
                       case processRow sv config (range_from r0) (range_to l) labels colors
                              bucketColumn column formatter row rowIndex' of
                         Inl e \<Rightarrow> Inl e
                       | Inr m \<Rightarrow> Inr (metrics' @ [m]))
                    0 metrics')
            0 [])))))"


definition example_services :: "(jsvalue \<Rightarrow> content_type \<Rightarrow> string) \<Rightarrow> unit services" where
  "example_services conv =
     \<lparr>getHeatmapColors = example_heatmap, isColorDark = example_isColorDark,
      deserialize = (\<lambda>_. \<lparr>convert = conv\<rparr>),
      Number_toString = show_integral, StringToNumber = parseInt10\<rparr>"

definition example_table :: Datatable where
  "example_table =
     \<lparr>columns = [\<lparr>column_id = ''col-0'', column_name = ''Host''\<rparr>,
                 \<lparr>column_id = ''col-1'', column_name = ''Count''\<rparr>,
                 \<lparr>column_id = ''col-2'', column_name = ''Load''\<rparr>],
      rows = [map_of [(''col-0'', JStr ''alpha''), (''col-1'', JNum (Fin 15)),
                      (''col-2'', JNum (Fin 3))],
              map_of [(''col-0'', JStr ''beta''), (''col-1'', JNum (Fin 42)),
                      (''col-2'', JNum NaN)]]\<rparr>"

definition example_dimensions :: "unit Dimensions" where
  "example_dimensions =
     \<lparr>metrics = [\<lparr>accessor = 1, format = ()\<rparr>, \<lparr>accessor = 2, format = ()\<rparr>],
      bucket = Some \<lparr>accessor = 0, format = ()\<rparr>\<rparr>"

chapter \<open>Properties\<close>

section \<open>getBucket\<close>

lemma findIndex_bounds: "- 1 \<le> findIndex xs p \<and> findIndex xs p < int (length xs)"
  by (induction xs) (auto simp: Let_def)

lemma findIndex_none: "findIndex xs p = - 1 \<longleftrightarrow> (\<forall>k<length xs. \<not> p (xs ! k))"
proof (induction xs)
  case Nil
  show ?case by simp
next
  case (Cons x xs)
  have nonneg: "findIndex xs p \<noteq> - 1 \<Longrightarrow> findIndex xs p + 1 \<noteq> - 1"
    using findIndex_bounds [of xs p] by arith
  show ?case
    using Cons.IH nonneg by (auto simp: Let_def less_Suc_eq_0_disj)
qed

lemma findIndex_first:
  "findIndex xs p \<noteq> - 1 \<Longrightarrow>
     p (xs ! nat (findIndex xs p)) \<and> (\<forall>k<nat (findIndex xs p). \<not> p (xs ! k))"
proof (induction xs)
  case Nil
  then show ?case by simp
next
  case (Cons x xs)
  show ?case
  proof (cases "p x")
    case True
    then show ?thesis by simp
  next
    case False
    with Cons.prems have ne: "findIndex xs p \<noteq> - 1"
      by (auto simp: Let_def split: if_splits)
    then have ge: "0 \<le> findIndex xs p"
      using findIndex_bounds [of xs p] by arith
    then have suc: "nat (findIndex xs p + 1) = Suc (nat (findIndex xs p))"
      by simp
    from Cons.IH [OF ne] False ne show ?thesis
      by (auto simp: Let_def suc less_Suc_eq_0_disj)
  qed
qed

lemma num_order_clash: "num_lt v a \<Longrightarrow> num_le a b \<Longrightarrow> num_le b v \<Longrightarrow> False"
  by (cases v; cases a; cases b) auto

lemma ordered_ranges_nth:
  "ordered_ranges rs \<Longrightarrow> i < j \<Longrightarrow> j < length rs \<Longrightarrow>
     num_le (range_to (rs ! i)) (range_from (rs ! j))"
proof (induction rs arbitrary: i j)
  case Nil
  then show ?case by simp
next
  case (Cons r rs)
  show ?case
  proof (cases i)
    case 0
    with Cons.prems obtain j' where j: "j = Suc j'" "j' < length rs"
      by (cases j) auto
    from Cons.prems(1) have "list_all (\<lambda>s. num_le (range_to r) (range_from s)) rs"
      by simp
    with j have "num_le (range_to r) (range_from (rs ! j'))"
      by (simp add: list_all_length)
    with 0 j show ?thesis by simp
  next
    case (Suc i')
    with Cons.prems obtain j' where j: "j = Suc j'" "i' < j'" "j' < length rs"
      by (cases j) auto
    from Cons.prems(1) have "ordered_ranges rs" by simp
    from Cons.IH [OF this j(2) j(3)] Suc j show ?thesis by simp
  qed
qed

lemma in_range_unique:
  assumes "ordered_ranges rs" "i < length rs" "j < length rs"
    and "in_range (rs ! i) v" "in_range (rs ! j) v"
  shows "i = j"
proof (rule ccontr)
  assume "i \<noteq> j"
  then consider "i < j" | "j < i" by arith
  then show False
  proof cases
    case 1
    from ordered_ranges_nth [OF assms(1) 1 assms(3)] assms(4,5) show False
      unfolding in_range_def using num_order_clash by blast
  next
    case 2
    from ordered_ranges_nth [OF assms(1) 2 assms(2)] assms(4,5) show False
      unfolding in_range_def using num_order_clash by blast
  qed
qed

text \<open>
  Claim C1, as stated, fails for the empty sequence of ranges: no range matches, and reading
  \<open>colorsRange[0].from\<close> raises a \<open>TypeError\<close>, so that no index is returned.
\<close>

theorem getBucket_empty_ranges_counterexample:
  "ordered_ranges (colorsRange ((example_config False False False False)\<lparr>colorsRange := []\<rparr>)) \<and>
   getBucket ((example_config False False False False)\<lparr>colorsRange := []\<rparr>) (Fin 5) =
     Inl TypeError"
  by (simp add: getBucket_def js_nth_def)

text \<open>
  Claim C1, amended. For a non-empty sequence of ranges \<open>R\<close> and any number \<open>v\<close>, \<open>getBucket\<close>
  returns an index of \<open>R\<close>: the first index whose range has \<open>from \<le> v\<close> and \<open>to > v\<close> when
  there is one; otherwise \<open>0\<close> when \<open>v < R[0].from\<close> and \<open>R.length - 1\<close> if not. When \<open>R\<close> is
  ordered and non-overlapping, the index returned for a value that lies in some range is the
  only index whose range encloses it.
\<close>

theorem getBucket_first_match_or_clamp:
  assumes "colorsRange config \<noteq> []"
  shows "\<exists>i. getBucket config v = Inr i \<and> 0 \<le> i \<and> i < int (length (colorsRange config)) \<and>
           (if \<exists>k<length (colorsRange config). in_range (colorsRange config ! k) v
            then in_range (colorsRange config ! nat i) v \<and>
                 (\<forall>k<nat i. \<not> in_range (colorsRange config ! k) v)
            else if num_lt v (range_from (colorsRange config ! 0)) then i = 0
            else i = int (length (colorsRange config)) - 1) \<and>
           (ordered_ranges (colorsRange config) \<longrightarrow>
              (\<forall>k<length (colorsRange config).
                 in_range (colorsRange config ! k) v \<longrightarrow> i = int k))"
proof -
  define R where "R = colorsRange config"
  define p :: "Range \<Rightarrow> bool"
    where "p = (\<lambda>range. num_le (range_from range) v \<and> num_gt (range_to range) v)"
  have p_eq: "p r = in_range r v" for r
    by (simp add: p_def in_range_def num_gt_def)
  from assms have ne: "R \<noteq> []" by (simp add: R_def)
  then have nth0: "js_nth R 0 = Some (R ! 0)"
    by (simp add: js_nth_def)
  show ?thesis
  proof (cases "findIndex R p = - 1")
    case True
    then have none: "\<forall>k<length R. \<not> in_range (R ! k) v"
      by (simp add: findIndex_none p_eq)
    define i where "i = (if num_lt v (range_from (R ! 0)) then 0 else int (length R) - 1)"
    from True nth0 have res: "getBucket config v = Inr i"
      by (simp add: getBucket_def R_def [symmetric] p_def [symmetric] i_def)
    from ne have bounds: "0 \<le> i" "i < int (length R)"
      by (simp_all add: i_def)
    from none have nex: "\<not> (\<exists>k<length R. in_range (R ! k) v)"
      by blast
    have clamp: "if num_lt v (range_from (R ! 0)) then i = 0 else i = int (length R) - 1"
      by (simp add: i_def)
    have "getBucket config v = Inr i \<and> 0 \<le> i \<and> i < int (length R) \<and>
           (if \<exists>k<length R. in_range (R ! k) v
            then in_range (R ! nat i) v \<and> (\<forall>k<nat i. \<not> in_range (R ! k) v)
            else if num_lt v (range_from (R ! 0)) then i = 0
            else i = int (length R) - 1) \<and>
           (ordered_ranges R \<longrightarrow> (\<forall>k<length R. in_range (R ! k) v \<longrightarrow> i = int k))"
      unfolding if_not_P [OF nex] using res bounds clamp nex by (intro conjI) blast+
    then show ?thesis
      unfolding R_def by (rule exI)
  next
    case False
    define i where "i = findIndex R p"
    from False have res: "getBucket config v = Inr i"
      by (simp add: getBucket_def R_def [symmetric] p_def [symmetric] i_def Let_def)
    from False findIndex_bounds [of R p] have bounds: "0 \<le> i" "i < int (length R)"
      by (auto simp: i_def)
    from findIndex_first [OF False] have first:
      "in_range (R ! nat i) v" "\<forall>k<nat i. \<not> in_range (R ! k) v"
      by (simp_all add: p_eq i_def)
    from bounds have lt: "nat i < length R" by simp
    have uniq: "ordered_ranges R \<longrightarrow> (\<forall>k<length R. in_range (R ! k) v \<longrightarrow> i = int k)"
    proof (intro impI allI)
      fix k
      assume "ordered_ranges R" "k < length R" "in_range (R ! k) v"
      then have "nat i = k"
        using in_range_unique [of R "nat i" k v] lt first(1) by simp
      with bounds show "i = int k" by simp
    qed
    have ex: "\<exists>k<length R. in_range (R ! k) v"
      using lt first(1) by blast
    have choice: "if \<exists>k<length R. in_range (R ! k) v
            then in_range (R ! nat i) v \<and> (\<forall>k<nat i. \<not> in_range (R ! k) v)
            else if num_lt v (range_from (R ! 0)) then i = 0
            else i = int (length R) - 1"
      unfolding if_P [OF ex] using first by (rule conjI)
    have "getBucket config v = Inr i \<and> 0 \<le> i \<and> i < int (length R) \<and>
           (if \<exists>k<length R. in_range (R ! k) v
            then in_range (R ! nat i) v \<and> (\<forall>k<nat i. \<not> in_range (R ! k) v)
            else if num_lt v (range_from (R ! 0)) then i = 0
            else i = int (length R) - 1) \<and>
           (ordered_ranges R \<longrightarrow> (\<forall>k<length R. in_range (R ! k) v \<longrightarrow> i = int k))"
      using res bounds choice uniq by (intro conjI)
    then show ?thesis
      unfolding R_def by (rule exI)
  qed
qed

text \<open>
  The ranges of the spec's examples, \<open>[0, 10)\<close>, \<open>[10, 20)\<close>, \<open>[20, 30)\<close>: the value \<open>25\<close> lies in
  the range of index \<open>2\<close>, which the theorem then gives as the result.
\<close>

theorem getBucket_first_match_or_clamp_witness:
  "colorsRange (example_config False False False False) \<noteq> [] \<and>
   ordered_ranges (colorsRange (example_config False False False False)) \<and>
   in_range (colorsRange (example_config False False False False) ! 2) (Fin 25) \<and>
   getBucket (example_config False False False False) (Fin 25) = Inr 2"
proof -
  let ?cfg = "example_config False False False False"
  have ne: "colorsRange ?cfg \<noteq> []"
    by (simp add: example_config_def example_ranges_def)
  have ord: "ordered_ranges (colorsRange ?cfg)"
    by (simp add: example_config_def example_ranges_def)
  have len: "(2::nat) < length (colorsRange ?cfg)"
    by (simp add: example_config_def example_ranges_def)
  have encl: "in_range (colorsRange ?cfg ! 2) (Fin 25)"
    by (simp add: example_config_def example_ranges_def in_range_def)
  from getBucket_first_match_or_clamp [OF ne, of "Fin 25"] obtain i
    where res: "getBucket ?cfg (Fin 25) = Inr i"
      and uniq: "ordered_ranges (colorsRange ?cfg) \<longrightarrow>
              (\<forall>k<length (colorsRange ?cfg). in_range (colorsRange ?cfg ! k) (Fin 25) \<longrightarrow> i = int k)"
    by blast
  from uniq ord len encl have "i = int 2" by blast
  with res ne ord encl show ?thesis by simp
qed

section \<open>getLabels\<close>

lemma forEach_push:
  "forEach xs (\<lambda>x _ acc. Inr (acc @ [g x])) i acc = Inr (acc @ map g xs)"
  by (induction xs arbitrary: i acc) simp_all

lemma getLabels_map:
  assumes "colorsRange config \<noteq> []"
  shows "getLabels toStr config =
           Inr (map (spec_label toStr (percentageMode config) (range_to (last (colorsRange config))))
                  (colorsRange config))"
  using assms
  by (simp add: getLabels_def last_opt_def Let_def forEach_push spec_label_def)

text \<open>
  Claim C3, as stated, fails for a \<open>colorsRange\<close> of length \<open>0\<close>: \<open>last(colorsRange).to\<close> is read
  before the loop, in either mode, and raises a \<open>TypeError\<close>; no list of labels is returned.
\<close>

theorem getLabels_empty_ranges_counterexample:
  "length (colorsRange ((example_config False False False False)\<lparr>colorsRange := []\<rparr>)) = 0 \<and>
   \<not> percentageMode ((example_config False False False False)\<lparr>colorsRange := []\<rparr>) \<and>
   getLabels show_integral ((example_config False False False False)\<lparr>colorsRange := []\<rparr>) =
     Inl TypeError"
  by (simp add: getLabels_def last_opt_def example_config_def)

text \<open>
  Claim C3, amended. For a non-empty \<open>colorsRange\<close> of length \<open>n\<close>, \<open>getLabels\<close> returns exactly
  \<open>n\<close> labels; the \<open>i\<close>-th is \<open>"{from} - {to}"\<close> of the \<open>i\<close>-th range, where in percentage mode
  each bound is replaced by \<open>Math.round(100 * bound / max)\<close>, \<open>max\<close> being the last range's
  \<open>to\<close>, and otherwise the bounds are used as they are.
\<close>

theorem getLabels_one_label_per_range:
  assumes "colorsRange config \<noteq> []"
  shows "\<exists>labels. getLabels toStr config = Inr labels \<and>
           length labels = length (colorsRange config) \<and>
           (\<forall>i<length (colorsRange config).
              labels ! i =
                (if percentageMode config
                 then toStr (Math_round (num_div (num_mul (Fin 100) (range_from (colorsRange config ! i)))
                               (range_to (last (colorsRange config))))) @ '' - '' @
                      toStr (Math_round (num_div (num_mul (Fin 100) (range_to (colorsRange config ! i)))
                               (range_to (last (colorsRange config)))))
                 else toStr (range_from (colorsRange config ! i)) @ '' - '' @
                      toStr (range_to (colorsRange config ! i))))"
  using getLabels_map [OF assms, of toStr] by (simp add: spec_label_def)

theorem getLabels_one_label_per_range_witness:
  "colorsRange (example_config True False False False) \<noteq> [] \<and>
   getLabels show_integral (example_config True False False False) =
     Inr [''0 - 33'', ''33 - 67'', ''67 - 100''] \<and>
   getLabels show_integral (example_config False False False False) =
     Inr [''0 - 10'', ''10 - 20'', ''20 - 30'']"
proof -
  let ?p = "example_config True False False False"
  let ?r = "example_config False False False False"
  have ne: "colorsRange ?p \<noteq> []" "colorsRange ?r \<noteq> []"
    by (simp_all add: example_config_def example_ranges_def)
  from getLabels_one_label_per_range [OF ne(1), of show_integral] obtain ls
    where ls: "getLabels show_integral ?p = Inr ls" "length ls = 3"
      "ls ! 0 = ''0 - 33''" "ls ! 1 = ''33 - 67''" "ls ! 2 = ''67 - 100''"
    by (auto simp add: example_config_def example_ranges_def digits10.simps digit_char_def)
  from getLabels_one_label_per_range [OF ne(2), of show_integral] obtain ms
    where ms: "getLabels show_integral ?r = Inr ms" "length ms = 3"
      "ms ! 0 = ''0 - 10''" "ms ! 1 = ''10 - 20''" "ms ! 2 = ''20 - 30''"
    by (auto simp add: example_config_def example_ranges_def digits10.simps digit_char_def)
  have three: "xs = [a, b, c]" if "length xs = 3" "xs ! 0 = a" "xs ! 1 = b" "xs ! 2 = c"
    for xs :: "string list" and a b c
    using that by (auto simp: eval_nat_numeral length_Suc_conv)
  from ls ms ne show ?thesis
    by (simp add: three)
qed

section \<open>getColors\<close>







lemma getColors_loop_keys:
  "distinct (map fst cs) \<Longrightarrow>
     distinct (map fst (getColors_loop h config labels i cs)) \<and>
     fst ` set (getColors_loop h config labels i cs) = fst ` set cs \<union> set (drop i labels)"
proof (induction h config labels i cs rule: getColors_loop.induct)
  case (1 h config labels i cs)
  show ?case
  proof (cases "i < length labels")
    case True
    let ?cs = "AList.update (labels ! i) (h (color_val config i) (colorSchema config)) cs"
    from "1.prems" have "distinct (map fst ?cs)"
      by (rule distinct_update)
    from "1.IH" [OF True this] True show ?thesis
      by (subst (1 2) getColors_loop.simps) (auto simp: dom_update Cons_nth_drop_Suc [symmetric])
  next
    case False
    with "1.prems" show ?thesis
      by (subst (1 2) getColors_loop.simps) simp
  qed
qed

lemma getColors_loop_length:
  "length (getColors_loop h config labels 0 []) = card (set labels)"
proof -
  have keys: "distinct (map fst (getColors_loop h config labels 0 []))"
    "fst ` set (getColors_loop h config labels 0 []) = set labels"
    using getColors_loop_keys [of "[]" h config labels 0] by simp_all
  have "length (getColors_loop h config labels 0 []) =
          length (map fst (getColors_loop h config labels 0 []))"
    by simp
  also have "\<dots> = card (set (map fst (getColors_loop h config labels 0 [])))"
    using keys(1) by (simp only: distinct_card)
  also have "\<dots> = card (set labels)"
    using keys(2) by simp
  finally show ?thesis .
qed


section \<open>Counting labels and colors\<close>

text \<open>
  Claim C5, as stated, fails: in percentage mode the ranges \<open>[0, 1)\<close>, \<open>[1, 2)\<close>, \<open>[2, 1000)\<close>
  give the three labels \<open>0 - 0\<close>, \<open>0 - 0\<close>, \<open>0 - 100\<close>, and the \<open>colors\<close> object, keyed by label,
  has two entries. With no range at all, neither function returns: both raise a \<open>TypeError\<close>.
\<close>

theorem labels_colors_ranges_counterexample:
  "length (colorsRange skewed_config) = 3 \<and>
   getLabels show_integral skewed_config = Inr [''0 - 0'', ''0 - 0'', ''0 - 100''] \<and>
   getColors example_heatmap show_integral skewed_config =
     Inr [(''0 - 0'', ''rgb(128,0,0)''), (''0 - 100'', ''rgb(255,0,0)'')] \<and>
   length [''0 - 0'', ''0 - 0'', ''0 - 100''] \<noteq>
     length [(''0 - 0'', ''rgb(128,0,0)''), (''0 - 100'', ''rgb(255,0,0)'')] \<and>
   getLabels show_integral (skewed_config\<lparr>colorsRange := []\<rparr>) = Inl TypeError \<and>
   getColors example_heatmap show_integral (skewed_config\<lparr>colorsRange := []\<rparr>) = Inl TypeError"
  by (simp add: skewed_config_def getColors_def getLabels_def last_opt_def digits10.simps
      digit_char_def getColors_loop.simps color_val_def divider_def num_sub_def
      example_heatmap_def)

text \<open>
  Claim C5, amended. For a non-empty \<open>colorsRange\<close>, \<open>getLabels\<close> returns as many labels as
  there are ranges, and \<open>getColors\<close> returns one entry for each distinct label: at most as
  many entries as ranges, and exactly as many if and only if the labels are pairwise distinct.
\<close>

theorem labels_colors_ranges_count:
  assumes "colorsRange config \<noteq> []"
  shows "\<exists>labels colors.
           getLabels toStr config = Inr labels \<and>
           getColors h toStr config = Inr colors \<and>
           length labels = length (colorsRange config) \<and>
           length colors = card (set labels) \<and>
           length colors \<le> length (colorsRange config) \<and>
           (length colors = length (colorsRange config) \<longleftrightarrow> distinct labels)"
proof -
  define labels where
    "labels = map (spec_label toStr (percentageMode config) (range_to (last (colorsRange config))))
                (colorsRange config)"
  define colors where "colors = getColors_loop h config labels 0 []"
  have labels: "getLabels toStr config = Inr labels"
    by (simp add: labels_def getLabels_map [OF assms])
  have len: "length labels = length (colorsRange config)"
    by (simp add: labels_def)
  have colors: "getColors h toStr config = Inr colors"
    by (simp add: getColors_def labels colors_def)
  have card: "length colors = card (set labels)"
    by (simp add: colors_def getColors_loop_length)
  have le: "length colors \<le> length (colorsRange config)"
    using card_length [of labels] by (simp add: card len)
  have iff: "length colors = length (colorsRange config) \<longleftrightarrow> distinct labels"
    using card_distinct [of labels] distinct_card [of labels] by (auto simp: card len)
  from labels colors len card le iff show ?thesis
    by blast
qed

theorem labels_colors_ranges_count_witness:
  "colorsRange (example_config True False False False) \<noteq> [] \<and>
   map_sum id length (getLabels show_integral (example_config True False False False)) = Inr 3 \<and>
   map_sum id length
     (getColors example_heatmap show_integral (example_config True False False False)) = Inr 3"
proof -
  let ?cfg = "example_config True False False False"
  have ne: "colorsRange ?cfg \<noteq> []"
    by (simp add: example_config_def example_ranges_def)
  have n: "length (colorsRange ?cfg) = 3"
    by (simp add: example_config_def example_ranges_def)
  have labels: "getLabels show_integral ?cfg = Inr [''0 - 33'', ''33 - 67'', ''67 - 100'']"
    by (simp add: example_config_def example_ranges_def getLabels_def last_opt_def
        digits10.simps digit_char_def)
  from labels_colors_ranges_count [OF ne, of show_integral example_heatmap]
  obtain ls cs where ls: "getLabels show_integral ?cfg = Inr ls"
    and cs: "getColors example_heatmap show_integral ?cfg = Inr cs"
    and iff: "length cs = length (colorsRange ?cfg) \<longleftrightarrow> distinct ls"
    by blast
  from ls labels have "ls = [''0 - 33'', ''33 - 67'', ''67 - 100'']"
    by simp
  then have "distinct ls"
    by simp
  with iff n have "length cs = 3"
    by simp
  with ne labels cs show ?thesis
    by simp
qed

section \<open>getFormattedValue\<close>


text \<open>
  Claim C8. For a value of which \<open>isNaN\<close> is true, \<open>getFormattedValue\<close> returns \<open>"-"\<close> whatever
  the field formatter is, so without a result of \<open>convert\<close>; for every other value it returns
  \<open>fieldFormatter.convert(value, format)\<close>, where \<open>format\<close> is \<open>'text'\<close> when not given.
\<close>

theorem getFormattedValue_placeholder_or_convert:
  "(lodash_isNaN val \<longrightarrow> (\<forall>fieldFormatter. getFormattedValue fieldFormatter val format_arg = ''-'')) \<and>
   (\<not> lodash_isNaN val \<longrightarrow>
      getFormattedValue fieldFormatter val (Some content) = convert fieldFormatter val content \<and>
      getFormattedValue fieldFormatter val None = convert fieldFormatter val Text)"
  by (simp add: getFormattedValue_def)

theorem getFormattedValue_placeholder_or_convert_witness:
  "lodash_isNaN (JNum NaN) \<and>
   getFormattedValue \<lparr>convert = example_convert\<rparr> (JNum NaN) (Some Html) = ''-'' \<and>
   \<not> lodash_isNaN (JNum (Fin 42)) \<and>
   getFormattedValue \<lparr>convert = example_convert\<rparr> (JNum (Fin 42)) (Some Html) = ''42'' \<and>
   \<not> lodash_isNaN (JStr ''abc'') \<and>
   getFormattedValue \<lparr>convert = example_convert\<rparr> (JStr ''abc'') None = ''abc''"
  using getFormattedValue_placeholder_or_convert
      [of "JNum NaN" "Some Html" "\<lparr>convert = example_convert\<rparr>" Html]
    getFormattedValue_placeholder_or_convert
      [of "JNum (Fin 42)" "Some Html" "\<lparr>convert = example_convert\<rparr>" Html]
    getFormattedValue_placeholder_or_convert
      [of "JStr ''abc''" None "\<lparr>convert = example_convert\<rparr>" Text]
  by (simp add: digits10.simps digit_char_def)

section \<open>getFormattedSelection\<close>

text \<open>
  Claim C2. \<open>getFormattedSelection\<close> formats each endpoint with the duration formatter chosen
  for that endpoint. When the two results have the same unit the output is
  \<open>"{from.value} - {to.formatted}"\<close>, otherwise it is \<open>"{from.formatted} - {to.formatted}"\<close>.
\<close>

theorem getFormattedSelection_unit_once:
  "(dur_unit (getDurationFormatter x x) = dur_unit (getDurationFormatter y y) \<longrightarrow>
      getFormattedSelection toStr getDurationFormatter (x, y) =
        toStr (dur_value (getDurationFormatter x x)) @ '' - '' @
        dur_formatted (getDurationFormatter y y)) \<and>
   (dur_unit (getDurationFormatter x x) \<noteq> dur_unit (getDurationFormatter y y) \<longrightarrow>
      getFormattedSelection toStr getDurationFormatter (x, y) =
        dur_formatted (getDurationFormatter x x) @ '' - '' @
        dur_formatted (getDurationFormatter y y))"
  by (simp add: getFormattedSelection_def Let_def)

theorem getFormattedSelection_unit_once_witness:
  "dur_unit (example_duration_formatter (Fin 1200) (Fin 1200)) =
     dur_unit (example_duration_formatter (Fin 1500) (Fin 1500)) \<and>
   getFormattedSelection show_integral example_duration_formatter (Fin 1200, Fin 1500) =
     ''1200 - 1500 ms'' \<and>
   dur_unit (example_duration_formatter (Fin 1200) (Fin 1200)) \<noteq>
     dur_unit (example_duration_formatter (Fin 12000) (Fin 12000)) \<and>
   getFormattedSelection show_integral example_duration_formatter (Fin 1200, Fin 12000) =
     ''1200 ms - 12 s''"
  using getFormattedSelection_unit_once
      [of example_duration_formatter "Fin 1200" "Fin 1500" show_integral]
    getFormattedSelection_unit_once
      [of example_duration_formatter "Fin 1200" "Fin 12000" show_integral]
  by (simp add: example_duration_formatter_def digits10.simps digit_char_def)

section \<open>The rgb pattern\<close>

lemma first_some_Some: "first_some xs = Some v \<Longrightarrow> Some v \<in> set xs"
  by (induction xs) (auto split: option.splits)

lemma first_some_None: "first_some xs = None \<longleftrightarrow> (\<forall>x\<in>set xs. x = None)"
  by (induction xs) (auto split: option.splits)

lemma first_some_map_Some:
  "first_some (map f xs) = Some v \<Longrightarrow> \<exists>k\<in>set xs. f k = Some v"
  by (induction xs) (auto split: option.splits)

lemma first_some_map_not_None:
  "k \<in> set xs \<Longrightarrow> f k \<noteq> None \<Longrightarrow> first_some (map f xs) \<noteq> None"
  by (induction xs) (auto split: option.splits)

lemma class_prefix_length:
  "\<forall>x\<in>set w. c x \<Longrightarrow> length w \<le> length (takeWhile c (w @ t))"
  by (induction w) simp_all

lemma take_within_class:
  "k \<le> length (takeWhile c s) \<Longrightarrow> \<forall>x\<in>set (take k s). c x"
proof (induction s arbitrary: k)
  case Nil
  then show ?case by simp
next
  case (Cons a s)
  then show ?case
    by (cases k) (auto split: if_splits)
qed

lemma match_items_sound:
  "match_items items s = Some caps \<Longrightarrow> sem_items items s caps"
proof (induction items s arbitrary: caps rule: match_items.induct)
  case (1 s)
  then show ?case by simp
next
  case (2 l items s)
  from "2.prems" have pre: "take (length l) s = l"
    and rest: "match_items items (drop (length l) s) = Some caps"
    by (simp_all split: if_splits)
  from pre have "s = l @ drop (length l) s"
    by (metis append_take_drop_id)
  moreover from "2.IH" [OF pre rest] have "sem_items items (drop (length l) s) caps" .
  ultimately show ?case
    by auto
next
  case (3 c items s)
  from "3.prems" have "\<exists>k\<in>set (rev [0..<Suc (length (takeWhile c s))]).
      match_items items (drop k s) = Some caps"
    by (simp only: match_items.simps first_some_map_Some)
  then obtain k where kin: "k \<in> set (rev [0..<Suc (length (takeWhile c s))])"
    and m: "match_items items (drop k s) = Some caps"
    by blast
  from kin have k: "k \<le> length (takeWhile c s)"
    by auto
  from "3.IH" [OF kin m] have "sem_items items (drop k s) caps" .
  moreover have "s = take k s @ drop k s"
    by simp
  moreover from k have "\<forall>x\<in>set (take k s). c x"
    by (rule take_within_class)
  ultimately show ?case
    unfolding sem_items.simps by blast
next
  case (4 c items s)
  from "4.prems" have "\<exists>k\<in>set (rev [1..<Suc (length (takeWhile c s))]).
      map_option ((#) (take k s)) (match_items items (drop k s)) = Some caps"
    by (simp only: match_items.simps first_some_map_Some)
  then obtain k where kin: "k \<in> set (rev [1..<Suc (length (takeWhile c s))])"
    and mo: "map_option ((#) (take k s)) (match_items items (drop k s)) = Some caps"
    by blast
  from mo obtain rest where m: "match_items items (drop k s) = Some rest"
    and caps: "caps = take k s # rest"
    by (cases "match_items items (drop k s)") auto
  from kin have k: "1 \<le> k" "k \<le> length (takeWhile c s)"
    by auto
  from "4.IH" [OF kin m] have "sem_items items (drop k s) rest" .
  moreover have "s = take k s @ drop k s"
    by simp
  moreover from k(2) have "\<forall>x\<in>set (take k s). c x"
    by (rule take_within_class)
  moreover from k have "take k s \<noteq> []"
    by (cases s) auto
  ultimately show ?case
    unfolding sem_items.simps using caps by blast
qed

lemma match_items_complete:
  "sem_items items s caps \<Longrightarrow> match_items items s \<noteq> None"
proof (induction items s arbitrary: caps rule: match_items.induct)
  case (1 s)
  then show ?case by simp
next
  case (2 l items s)
  from "2.prems" obtain t where s: "s = l @ t" and t: "sem_items items t caps"
    by auto
  from s have pre: "take (length l) s = l" and dr: "drop (length l) s = t"
    by simp_all
  from "2.IH" [OF pre] t dr have "match_items items (drop (length l) s) \<noteq> None"
    by simp
  with pre show ?case
    by simp
next
  case (3 c items s)
  from "3.prems" obtain w t where s: "s = w @ t" and w: "\<forall>x\<in>set w. c x"
    and t: "sem_items items t caps"
    by auto
  from w have len: "length w \<le> length (takeWhile c s)"
    unfolding s by (rule class_prefix_length)
  then have kin: "length w \<in> set (rev [0..<Suc (length (takeWhile c s))])"
    by auto
  from s have dr: "drop (length w) s = t"
    by simp
  from "3.IH" [OF kin] t dr have "match_items items (drop (length w) s) \<noteq> None"
    by simp
  with kin show ?case
    unfolding match_items.simps by (rule first_some_map_not_None)
next
  case (4 c items s)
  from "4.prems" obtain w t rest where s: "s = w @ t" and ne: "w \<noteq> []"
    and w: "\<forall>x\<in>set w. c x" and t: "sem_items items t rest"
    by auto
  from w have len: "length w \<le> length (takeWhile c s)"
    unfolding s by (rule class_prefix_length)
  from ne have pos: "1 \<le> length w"
    by (cases w) simp_all
  with len have kin: "length w \<in> set (rev [1..<Suc (length (takeWhile c s))])"
    by auto
  from s have dr: "drop (length w) s = t"
    by simp
  from "4.IH" [OF kin] t dr have "match_items items (drop (length w) s) \<noteq> None"
    by simp
  then have "map_option ((#) (take (length w) s)) (match_items items (drop (length w) s)) \<noteq> None"
    by simp
  with kin show ?case
    unfolding match_items.simps by (rule first_some_map_not_None)
qed

lemma regex_exec_sound:
  "regex_exec items s = Some caps \<Longrightarrow> \<exists>pre t. s = pre @ t \<and> sem_items items t caps"
proof -
  assume "regex_exec items s = Some caps"
  then have "\<exists>i\<in>set [0..<Suc (length s)]. match_items items (drop i s) = Some caps"
    unfolding regex_exec_def by (rule first_some_map_Some)
  then obtain i where "match_items items (drop i s) = Some caps"
    by blast
  then have "sem_items items (drop i s) caps"
    by (rule match_items_sound)
  moreover have "s = take i s @ drop i s"
    by simp
  ultimately show ?thesis
    by blast
qed

lemma regex_exec_complete:
  "sem_items items t caps \<Longrightarrow> regex_exec items (pre @ t) \<noteq> None"
proof -
  assume "sem_items items t caps"
  then have "match_items items t \<noteq> None"
    by (rule match_items_complete)
  then have "match_items items (drop (length pre) (pre @ t)) \<noteq> None"
    by simp
  moreover have "length pre \<in> set [0..<Suc (length (pre @ t))]"
    by simp
  ultimately show ?thesis
    unfolding regex_exec_def by (intro first_some_map_not_None)
qed
lemma sem_rgb_pattern:
  "sem_items rgb_pattern t caps \<longleftrightarrow>
     (\<exists>r g b w1 w2 w3 w4 w5 w6 post.
        caps = [r, g, b] \<and>
        t = ''rgb('' @ w1 @ r @ w2 @ '','' @ w3 @ g @ w4 @ '','' @ w5 @ b @ w6 @ '')'' @ post \<and>
        spaces w1 \<and> spaces w2 \<and> spaces w3 \<and> spaces w4 \<and> spaces w5 \<and> spaces w6 \<and>
        digits r \<and> digits g \<and> digits b)"
  (is "?L \<longleftrightarrow> ?R")
proof
  assume ?L
  then show ?R
    unfolding rgb_pattern_def sem_items.simps spaces_def digits_def
    apply (elim exE conjE)
    apply hypsubst
    apply (intro exI conjI)
                  apply (rule refl)
                 apply (rule refl)
                apply assumption+
    done
next
  assume ?R
  then show ?L
    unfolding rgb_pattern_def sem_items.simps spaces_def digits_def
    apply (elim exE conjE)
    apply hypsubst
    apply (intro exI conjI)
                        apply (rule refl | assumption)+
    done
qed
lemma sem_rgb_pattern_text:
  "sem_items rgb_pattern t caps \<Longrightarrow> \<exists>r g b. caps = [r, g, b] \<and> rgb_text (pre @ t) r g b"
  unfolding sem_rgb_pattern rgb_text_def
  apply (elim exE conjE)
  apply hypsubst
  apply (intro exI conjI)
            apply (rule refl | assumption)+
  done

lemma rgb_text_sem:
  "rgb_text s r g b \<Longrightarrow> \<exists>pre t. s = pre @ t \<and> sem_items rgb_pattern t [r, g, b]"
  unfolding sem_rgb_pattern rgb_text_def
  apply (elim exE conjE)
  apply hypsubst
  apply (intro exI conjI)
             apply (rule refl | assumption)+
  done

lemma regex_exec_rgb_Some:
  assumes "regex_exec rgb_pattern s = Some caps"
  shows "\<exists>r g b. caps = [r, g, b] \<and> rgb_text s r g b"
proof -
  from regex_exec_sound [OF assms] obtain pre t
    where s: "s = pre @ t" and sem: "sem_items rgb_pattern t caps"
    by blast
  from sem show ?thesis
    unfolding s by (rule sem_rgb_pattern_text)
qed

lemma regex_exec_rgb_None:
  assumes "regex_exec rgb_pattern s = None"
  shows "\<not> rgb_text s r g b"
proof
  assume "rgb_text s r g b"
  then obtain pre t where s: "s = pre @ t" and sem: "sem_items rgb_pattern t [r, g, b]"
    using rgb_text_sem by blast
  from sem have "regex_exec rgb_pattern s \<noteq> None"
    unfolding s by (rule regex_exec_complete)
  with assms show False
    by simp
qed

lemma rgb_text_digits: "rgb_text s r g b \<Longrightarrow> digits r \<and> digits g \<and> digits b"
  unfolding rgb_text_def
  apply (elim exE conjE)
  apply (intro conjI)
    apply assumption+
  done

lemma digit_not_space: "is_digit c \<Longrightarrow> \<not> is_space c"
  by (auto simp: is_digit_def is_space_def)

lemma digit_not_sign: "is_digit c \<Longrightarrow> c \<noteq> CHR ''-'' \<and> c \<noteq> CHR ''+''"
  by (auto simp: is_digit_def)

lemma parseInt10_digits:
  assumes "digits d"
  shows "parseInt10 d = Fin (real (nat_of_digits d))"
proof -
  from assms obtain c cs where d: "d = c # cs" and c: "is_digit c" and cs: "\<forall>x\<in>set cs. is_digit x"
    unfolding digits_def by (cases d) auto
  from c have "\<not> is_space c" "c \<noteq> CHR ''-''" "c \<noteq> CHR ''+''"
    using digit_not_space digit_not_sign by blast+
  moreover from c cs have "takeWhile is_digit (c # cs) = c # cs"
    by (simp add: takeWhile_eq_all_conv)
  ultimately show ?thesis
    unfolding d parseInt10_def by (simp add: Let_def)
qed

section \<open>needsLightText\<close>

text \<open>
  Claim C7. When the background color text does not match the \<open>rgb(r,g,b)\<close> pattern,
  \<open>needsLightText\<close> is false whatever the darkness judgment \<open>isColorDark\<close> is. When it
  does, the result is the judgment of \<open>isColorDark\<close> on the three numbers that the digit runs
  \<open>r\<close>, \<open>g\<close>, \<open>b\<close> of a match denote; \<open>isColorDark\<close> is applied to nothing else.
\<close>

theorem needsLightText_judges_parsed_rgb_only:
  "((\<forall>r g b. \<not> rgb_text bg r g b) \<longrightarrow>
      (\<forall>dark. needsLightText dark bg = False)) \<and>
   ((\<exists>r g b. rgb_text bg r g b) \<longrightarrow>
      (\<exists>r g b. rgb_text bg r g b \<and>
         (\<forall>dark. needsLightText dark bg =
            dark (Fin (real (nat_of_digits r))) (Fin (real (nat_of_digits g)))
              (Fin (real (nat_of_digits b))))))"
proof (cases "regex_exec rgb_pattern bg")
  case None
  then have no: "\<not> rgb_text bg r g b" for r g b
    by (rule regex_exec_rgb_None)
  from None have "needsLightText dark bg = False" for dark
    by (simp add: needsLightText_def)
  with no show ?thesis
    by blast
next
  case (Some caps)
  from regex_exec_rgb_Some [OF Some] obtain r g b
    where caps: "caps = [r, g, b]" and rt: "rgb_text bg r g b"
    by blast
  from rgb_text_digits [OF rt] have dg: "digits r" "digits g" "digits b"
    by simp_all
  have "needsLightText dark bg =
      dark (Fin (real (nat_of_digits r))) (Fin (real (nat_of_digits g)))
        (Fin (real (nat_of_digits b)))" for dark
    by (simp add: needsLightText_def Some caps js_nth_def parseInt10_digits dg)
  with rt show ?thesis
    by blast
qed

theorem needsLightText_judges_parsed_rgb_only_witness:
  "(\<forall>r g b. \<not> rgb_text ''#ff0000'' r g b) \<and>
   needsLightText example_isColorDark ''#ff0000'' = False \<and>
   (\<exists>r g b. rgb_text ''rgb(128, 0,0)'' r g b) \<and>
   (\<exists>r g b. rgb_text ''rgb(128, 0,0)'' r g b \<and>
      needsLightText example_isColorDark ''rgb(128, 0,0)'' =
        example_isColorDark (Fin (real (nat_of_digits r))) (Fin (real (nat_of_digits g)))
          (Fin (real (nat_of_digits b)))) \<and>
   needsLightText example_isColorDark ''rgb(128, 0,0)'' = True"
proof -
  have "regex_exec rgb_pattern ''#ff0000'' = None"
    by (simp add: regex_exec_def rgb_pattern_def upt_rec)
  then have no: "\<forall>r g b. \<not> rgb_text ''#ff0000'' r g b"
    using regex_exec_rgb_None by blast
  have "regex_exec rgb_pattern ''rgb(128, 0,0)'' = Some [''128'', ''0'', ''0'']"
    by (simp add: regex_exec_def rgb_pattern_def is_space_def is_digit_def upt_rec)
  from regex_exec_rgb_Some [OF this] have yes: "\<exists>r g b. rgb_text ''rgb(128, 0,0)'' r g b"
    by blast
  have val: "needsLightText example_isColorDark ''rgb(128, 0,0)'' = True"
    by (simp add: needsLightText_def regex_exec_def rgb_pattern_def is_space_def is_digit_def
        upt_rec parseInt10_def nat_of_digits_def digit_val_def js_nth_def)
  from needsLightText_judges_parsed_rgb_only [of "''#ff0000''"] no
  have a: "needsLightText example_isColorDark ''#ff0000'' = False"
    by blast
  from needsLightText_judges_parsed_rgb_only [of "''rgb(128, 0,0)''"] yes
  have b: "\<exists>r g b. rgb_text ''rgb(128, 0,0)'' r g b \<and>
      needsLightText example_isColorDark ''rgb(128, 0,0)'' =
        example_isColorDark (Fin (real (nat_of_digits r))) (Fin (real (nat_of_digits g)))
          (Fin (real (nat_of_digits b)))"
    by blast
  from no a yes b val show ?thesis
    by (intro conjI)
qed

section \<open>processTableGroups\<close>

lemma getBucket_returns:
  assumes "colorsRange config \<noteq> []"
  shows "\<exists>i. getBucket config v = Inr i"
proof -
  from assms have "js_nth (colorsRange config) 0 = Some (colorsRange config ! 0)"
    by (simp add: js_nth_def)
  then show ?thesis
    by (simp add: getBucket_def Let_def)
qed

lemma processRow_returns:
  assumes "colorsRange config \<noteq> []"
  shows "\<exists>m. processRow sv config mn mx ls cs bc (Some col) fmt row j = Inr m"
proof -
  from getBucket_returns [OF assms] obtain i
    where "getBucket config (ToNumber (StringToNumber sv) (row_get row (column_id col))) = Inr i"
    by blast
  then show ?thesis
    by (simp add: processRow_def getColor_def Let_def)
qed

lemma processRow_fields:
  assumes "processRow sv config mn mx ls cs bc column fmt row j = Inr m"
  shows "\<exists>col. column = Some col \<and>
           rowIndex m = j \<and>
           value m =
             getFormattedValue fmt
               (if percentageMode config
                then JNum (num_div (num_sub (ToNumber (StringToNumber sv) (row_get row (column_id col))) mn)
                             (num_sub mx mn))
                else row_get row (column_id col))
               (Some Html) \<and>
           (length (colorsRange config) \<le> 1 \<longrightarrow>
              color m = None \<and> bgColor m = None \<and> \<not> lightText m) \<and>
           (color m \<noteq> None \<longrightarrow> 1 < length (colorsRange config) \<and> style_labelColor (style config)) \<and>
           (bgColor m \<noteq> None \<longrightarrow> 1 < length (colorsRange config) \<and> style_bgColor (style config))"
proof (cases column)
  case None
  with assms show ?thesis
    by (simp add: processRow_def)
next
  case (Some col)
  show ?thesis
  proof (cases "getColor config (ToNumber (StringToNumber sv) (row_get row (column_id col))) ls cs")
    case (Inl e)
    with assms Some show ?thesis
      by (simp add: processRow_def Let_def)
  next
    case (Inr c)
    from assms have "m = projr (processRow sv config mn mx ls cs bc column fmt row j)"
      by simp
    then show ?thesis
      unfolding Some by (simp add: processRow_def Let_def Inr)
  qed
qed

lemma forEach_invariant:
  assumes "forEach xs f i s = Inr s'" and "I s"
    and step: "\<And>x k t t'. I t \<Longrightarrow> f x k t = Inr t' \<Longrightarrow> I t'"
  shows "I s'"
  using assms(1,2)
proof (induction xs arbitrary: i s)
  case Nil
  then show ?case by simp
next
  case (Cons x xs)
  from Cons.prems(1) obtain t where t: "f x i s = Inr t" and rest: "forEach xs f (Suc i) t = Inr s'"
    by (cases "f x i s") simp_all
  from step [OF Cons.prems(2) t] have "I t" .
  from Cons.IH [OF rest this] show ?case .
qed

lemma forEach_collect:
  assumes "\<forall>j<length xs. \<exists>m. g (xs ! j) (i + j) = Inr m"
  shows "forEach xs (\<lambda>x k acc. case g x k of Inl e \<Rightarrow> Inl e | Inr m \<Rightarrow> Inr (acc @ [m])) i acc =
           Inr (acc @ map (\<lambda>j. projr (g (xs ! j) (i + j))) [0..<length xs])"
  using assms
proof (induction xs arbitrary: i acc)
  case Nil
  then show ?case by simp
next
  case (Cons x xs)
  from Cons.prems have "\<exists>m. g ((x # xs) ! 0) (i + 0) = Inr m"
    by blast
  then obtain m where m: "g x i = Inr m"
    by auto
  have "\<forall>j<length xs. \<exists>m. g (xs ! j) (Suc i + j) = Inr m"
  proof (intro allI impI)
    fix j
    assume "j < length xs"
    then have "Suc j < length (x # xs)" by simp
    with Cons.prems have "\<exists>m. g ((x # xs) ! Suc j) (i + Suc j) = Inr m"
      by blast
    then show "\<exists>m. g (xs ! j) (Suc i + j) = Inr m"
      by simp
  qed
  from Cons.IH [OF this, of "acc @ [m]"] m show ?case
    by (simp add: upt_conv_Cons map_Suc_upt [symmetric] del: upt_Suc)
qed

lemma forEach_concat:
  assumes "\<And>x k acc. x \<in> set xs \<Longrightarrow> F x k acc = Inr (acc @ f x)"
  shows "forEach xs F i acc = Inr (acc @ concat (map f xs))"
  using assms by (induction xs arbitrary: i acc) simp_all

lemma nth_concat_uniform:
  assumes "\<forall>x\<in>set xs. length (f x) = n" and "i < length xs" and "j < n"
  shows "concat (map f xs) ! (i * n + j) = f (xs ! i) ! j"
  using assms
proof (induction xs arbitrary: i)
  case Nil
  then show ?case by simp
next
  case (Cons x xs)
  show ?case
  proof (cases i)
    case 0
    with Cons.prems show ?thesis
      by (simp add: nth_append)
  next
    case (Suc i')
    with Cons.prems have "concat (map f xs) ! (i' * n + j) = f (xs ! i') ! j"
      by (intro Cons.IH) simp_all
    with Suc Cons.prems show ?thesis
      by (simp add: nth_append add.assoc)
  qed
qed

lemma length_concat_uniform:
  "\<forall>x\<in>set xs. length (f x) = n \<Longrightarrow> length (concat (map f xs)) = length xs * n"
  by (induction xs) simp_all

lemma processTableGroups_rows:
  fixes sv :: "'a services"
  assumes ne: "colorsRange config \<noteq> []"
    and bk: "\<forall>b. bucket dimensions = Some b \<longrightarrow>
               0 \<le> accessor b \<and> accessor b < int (length (columns table))"
    and mt: "rows table = [] \<or>
             (\<forall>m\<in>set (metrics dimensions). 0 \<le> accessor m \<and> accessor m < int (length (columns table)))"
  shows "\<exists>ls cs bc.
           getLabels (Number_toString sv) config = Inr ls \<and>
           getColors (getHeatmapColors sv) (Number_toString sv) config = Inr cs \<and>
           bucketColumn_of sv dimensions table = Inr bc \<and>
           (\<forall>metric\<in>set (metrics dimensions). \<forall>j<length (rows table).
              \<exists>m. processRow sv config (range_from (hd (colorsRange config)))
                     (range_to (last (colorsRange config))) ls cs bc
                     (js_nth (columns table) (accessor metric)) (deserialize sv (format metric))
                     (rows table ! j) j = Inr m) \<and>
           processTableGroups sv config dimensions table =
             Inr (concat (map (\<lambda>metric. map (\<lambda>j. projr
                    (processRow sv config (range_from (hd (colorsRange config)))
                       (range_to (last (colorsRange config))) ls cs bc
                       (js_nth (columns table) (accessor metric)) (deserialize sv (format metric))
                       (rows table ! j) j))
                  [0..<length (rows table)]) (metrics dimensions)))"
proof -
  obtain ls where ls: "getLabels (Number_toString sv) config = Inr ls"
    using getLabels_map [OF ne] by blast
  obtain cs where cs: "getColors (getHeatmapColors sv) (Number_toString sv) config = Inr cs"
    by (simp add: getColors_def ls)
  obtain bc where bc: "bucketColumn_of sv dimensions table = Inr bc"
  proof (cases "bucket dimensions")
    case None
    then have "bucketColumn_of sv dimensions table = Inr None"
      by (simp add: bucketColumn_of_def)
    then show ?thesis by (rule that)
  next
    case (Some b)
    with bk have "js_nth (columns table) (accessor b) = Some (columns table ! nat (accessor b))"
      by (simp add: js_nth_def)
    with Some have "bucketColumn_of sv dimensions table =
        Inr (Some (column_id (columns table ! nat (accessor b)), deserialize sv (format b)))"
      by (simp add: bucketColumn_of_def)
    then show ?thesis by (rule that)
  qed
  define row_of where "row_of = (\<lambda>(metric :: 'a SchemaConfig) row j.
      processRow sv config (range_from (hd (colorsRange config)))
        (range_to (last (colorsRange config))) ls cs bc
        (js_nth (columns table) (accessor metric)) (deserialize sv (format metric)) row j)"
  have first: "js_nth (colorsRange config) 0 = Some (hd (colorsRange config))"
    using ne by (simp add: js_nth_def hd_conv_nth)
  have final: "last_opt (colorsRange config) = Some (last (colorsRange config))"
    using ne by (simp add: last_opt_def)
  have each: "\<exists>m. row_of metric (rows table ! j) j = Inr m"
    if "metric \<in> set (metrics dimensions)" "j < length (rows table)" for metric j
  proof -
    from that(2) have "rows table \<noteq> []" by auto
    with mt that(1) have "0 \<le> accessor metric \<and> accessor metric < int (length (columns table))"
      by blast
    then have "js_nth (columns table) (accessor metric) =
        Some (columns table ! nat (accessor metric))"
      by (simp add: js_nth_def)
    then show ?thesis
      unfolding row_of_def using processRow_returns [OF ne] by simp
  qed
  have inner: "forEach (rows table)
        (\<lambda>row k acc. case row_of metric row k of Inl e \<Rightarrow> Inl e | Inr m \<Rightarrow> Inr (acc @ [m])) 0 acc =
      Inr (acc @ map (\<lambda>j. projr (row_of metric (rows table ! j) j)) [0..<length (rows table)])"
    if "metric \<in> set (metrics dimensions)" for metric acc
    using forEach_collect [of "rows table" "row_of metric" 0 acc] each [OF that] by simp
  have outer: "forEach (metrics dimensions)
        (\<lambda>metric _ acc. forEach (rows table)
           (\<lambda>row k acc. case row_of metric row k of Inl e \<Rightarrow> Inl e | Inr m \<Rightarrow> Inr (acc @ [m]))
           0 acc) 0 [] =
      Inr ([] @ concat (map (\<lambda>metric. map (\<lambda>j. projr (row_of metric (rows table ! j) j))
             [0..<length (rows table)]) (metrics dimensions)))"
    by (rule forEach_concat) (rule inner)
  have run: "processTableGroups sv config dimensions table =
      Inr (concat (map (\<lambda>metric. map (\<lambda>j. projr (row_of metric (rows table ! j) j))
             [0..<length (rows table)]) (metrics dimensions)))"
    using outer
    by (simp add: processTableGroups_def first final ls cs bc Let_def row_of_def)
  from ls cs bc each run show ?thesis
    unfolding row_of_def by blast
qed

lemma processTableGroups_nth:
  fixes sv :: "'a services"
  assumes ne: "colorsRange config \<noteq> []"
    and bk: "\<forall>b. bucket dimensions = Some b \<longrightarrow>
               0 \<le> accessor b \<and> accessor b < int (length (columns table))"
    and mt: "rows table = [] \<or>
             (\<forall>m\<in>set (metrics dimensions). 0 \<le> accessor m \<and> accessor m < int (length (columns table)))"
  shows "\<exists>ms ls cs bc.
           processTableGroups sv config dimensions table = Inr ms \<and>
           length ms = length (metrics dimensions) * length (rows table) \<and>
           getLabels (Number_toString sv) config = Inr ls \<and>
           getColors (getHeatmapColors sv) (Number_toString sv) config = Inr cs \<and>
           bucketColumn_of sv dimensions table = Inr bc \<and>
           (\<forall>i<length (metrics dimensions). \<forall>j<length (rows table).
              processRow sv config (range_from (hd (colorsRange config)))
                (range_to (last (colorsRange config))) ls cs bc
                (js_nth (columns table) (accessor (metrics dimensions ! i)))
                (deserialize sv (format (metrics dimensions ! i)))
                (rows table ! j) j = Inr (ms ! (i * length (rows table) + j)))"
proof -
  from processTableGroups_rows [OF ne bk mt, of sv] obtain ls cs bc
    where ls: "getLabels (Number_toString sv) config = Inr ls"
      and cs: "getColors (getHeatmapColors sv) (Number_toString sv) config = Inr cs"
      and bc: "bucketColumn_of sv dimensions table = Inr bc"
      and each: "\<forall>metric\<in>set (metrics dimensions). \<forall>j<length (rows table).
              \<exists>m. processRow sv config (range_from (hd (colorsRange config)))
                     (range_to (last (colorsRange config))) ls cs bc
                     (js_nth (columns table) (accessor metric)) (deserialize sv (format metric))
                     (rows table ! j) j = Inr m"
      and run: "processTableGroups sv config dimensions table =
             Inr (concat (map (\<lambda>metric. map (\<lambda>j. projr
                    (processRow sv config (range_from (hd (colorsRange config)))
                       (range_to (last (colorsRange config))) ls cs bc
                       (js_nth (columns table) (accessor metric)) (deserialize sv (format metric))
                       (rows table ! j) j))
                  [0..<length (rows table)]) (metrics dimensions)))"
    by blast
  define row_of where "row_of = (\<lambda>(metric :: 'a SchemaConfig) j.
      processRow sv config (range_from (hd (colorsRange config)))
        (range_to (last (colorsRange config))) ls cs bc
        (js_nth (columns table) (accessor metric)) (deserialize sv (format metric))
        (rows table ! j) j)"
  define per where "per = (\<lambda>metric. map (\<lambda>j. projr (row_of metric j)) [0..<length (rows table)])"
  define ms where "ms = concat (map per (metrics dimensions))"
  have uniform: "\<forall>x\<in>set (metrics dimensions). length (per x) = length (rows table)"
    by (simp add: per_def)
  from run have res: "processTableGroups sv config dimensions table = Inr ms"
    by (simp add: ms_def per_def row_of_def)
  have len: "length ms = length (metrics dimensions) * length (rows table)"
    unfolding ms_def using uniform by (rule length_concat_uniform)
  have pos: "row_of (metrics dimensions ! i) j = Inr (ms ! (i * length (rows table) + j))"
    if i: "i < length (metrics dimensions)" and j: "j < length (rows table)" for i j
  proof -
    from i have "metrics dimensions ! i \<in> set (metrics dimensions)"
      by simp
    with each j obtain m where m: "row_of (metrics dimensions ! i) j = Inr m"
      unfolding row_of_def by blast
    have "ms ! (i * length (rows table) + j) = per (metrics dimensions ! i) ! j"
      unfolding ms_def using uniform i j by (rule nth_concat_uniform)
    also from j have "\<dots> = projr (row_of (metrics dimensions ! i) j)"
      by (simp add: per_def)
    also from m have "\<dots> = m"
      by simp
    finally show ?thesis
      using m by simp
  qed
  from res len ls cs bc pos show ?thesis
    unfolding row_of_def by blast
qed

text \<open>
  Claim C10, as stated, fails: with an empty \<open>colorsRange\<close>, and with a metric accessor that
  names no column of a table that has rows, \<open>processTableGroups\<close> raises a \<open>TypeError\<close> and
  returns no descriptor at all.
\<close>

theorem processTableGroups_descriptor_count_counterexample:
  "length (metrics example_dimensions) * length (rows example_table) = 4 \<and>
   processTableGroups (example_services example_convert)
     ((example_config False False True True)\<lparr>colorsRange := []\<rparr>)
     example_dimensions example_table = Inl TypeError \<and>
   processTableGroups (example_services example_convert) (example_config False False True True)
     (example_dimensions\<lparr>metrics := [\<lparr>accessor = 7, format = ()\<rparr>]\<rparr>) example_table =
     Inl TypeError"
  by (simp add: processTableGroups_def example_config_def example_dimensions_def
      example_table_def js_nth_def example_ranges_def last_opt_def example_services_def
      getColors_def getLabels_def getColors_loop.simps bucketColumn_of_def processRow_def)

text \<open>
  Claim C10, amended. When \<open>colorsRange\<close> is not empty, the bucket accessor (if there is a
  bucket dimension) names a column, and every metric accessor names a column (or the table
  has no rows), \<open>processTableGroups\<close> returns exactly
  \<open>dimensions.metrics.length * table.rows.length\<close> descriptors, ordered by metric dimension and
  then by row: the descriptor at position \<open>i * rows.length + j\<close> is the one computed for the
  \<open>i\<close>-th metric dimension and the \<open>j\<close>-th row, and its \<open>rowIndex\<close> is \<open>j\<close>.
\<close>

theorem processTableGroups_descriptor_per_metric_and_row:
  fixes sv :: "'a services"
  assumes "colorsRange config \<noteq> []"
    and "\<forall>b. bucket dimensions = Some b \<longrightarrow>
           0 \<le> accessor b \<and> accessor b < int (length (columns table))"
    and "rows table = [] \<or>
         (\<forall>m\<in>set (metrics dimensions). 0 \<le> accessor m \<and> accessor m < int (length (columns table)))"
  shows "\<exists>ms ls cs bc.
           processTableGroups sv config dimensions table = Inr ms \<and>
           length ms = length (metrics dimensions) * length (rows table) \<and>
           getLabels (Number_toString sv) config = Inr ls \<and>
           getColors (getHeatmapColors sv) (Number_toString sv) config = Inr cs \<and>
           bucketColumn_of sv dimensions table = Inr bc \<and>
           (\<forall>i<length (metrics dimensions). \<forall>j<length (rows table).
              processRow sv config (range_from (hd (colorsRange config)))
                (range_to (last (colorsRange config))) ls cs bc
                (js_nth (columns table) (accessor (metrics dimensions ! i)))
                (deserialize sv (format (metrics dimensions ! i)))
                (rows table ! j) j = Inr (ms ! (i * length (rows table) + j)) \<and>
              rowIndex (ms ! (i * length (rows table) + j)) = j)"
proof -
  from processTableGroups_nth [OF assms, of sv] obtain ms ls cs bc
    where res: "processTableGroups sv config dimensions table = Inr ms"
      "length ms = length (metrics dimensions) * length (rows table)"
      "getLabels (Number_toString sv) config = Inr ls"
      "getColors (getHeatmapColors sv) (Number_toString sv) config = Inr cs"
      "bucketColumn_of sv dimensions table = Inr bc"
      and pos: "\<forall>i<length (metrics dimensions). \<forall>j<length (rows table).
              processRow sv config (range_from (hd (colorsRange config)))
                (range_to (last (colorsRange config))) ls cs bc
                (js_nth (columns table) (accessor (metrics dimensions ! i)))
                (deserialize sv (format (metrics dimensions ! i)))
                (rows table ! j) j = Inr (ms ! (i * length (rows table) + j))"
    by blast
  have "rowIndex (ms ! (i * length (rows table) + j)) = j"
    if "i < length (metrics dimensions)" "j < length (rows table)" for i j
    using pos that processRow_fields by blast
  with res pos show ?thesis
    by blast
qed

theorem processTableGroups_descriptor_per_metric_and_row_witness:
  "colorsRange (example_config False False True True) \<noteq> [] \<and>
   map_option accessor (bucket example_dimensions) = Some 0 \<and>
   map accessor (metrics example_dimensions) = [1, 2] \<and>
   length (columns example_table) = 3 \<and>
   (\<exists>ms. processTableGroups (example_services example_convert)
           (example_config False False True True) example_dimensions example_table = Inr ms \<and>
         length ms = 4 \<and>
         map rowIndex ms = [0, 1, 0, 1] \<and>
         map label ms = [''alpha - Count'', ''beta - Count'', ''alpha - Load'', ''beta - Load''])"
proof -
  let ?cfg = "example_config False False True True"
  let ?sv = "example_services example_convert"
  have ne: "colorsRange ?cfg \<noteq> []"
    by (simp add: example_config_def example_ranges_def)
  have bk: "\<forall>b. bucket example_dimensions = Some b \<longrightarrow>
      0 \<le> accessor b \<and> accessor b < int (length (columns example_table))"
    by (simp add: example_dimensions_def example_table_def)
  have mt: "rows example_table = [] \<or>
    (\<forall>m\<in>set (metrics example_dimensions).
       0 \<le> accessor m \<and> accessor m < int (length (columns example_table)))"
    by (simp add: example_dimensions_def example_table_def)
  have sizes: "length (metrics example_dimensions) = 2" "length (rows example_table) = 2"
    by (simp_all add: example_dimensions_def example_table_def)
  from processTableGroups_descriptor_per_metric_and_row [OF ne bk mt, of ?sv]
  obtain ms where res: "processTableGroups ?sv ?cfg example_dimensions example_table = Inr ms"
    and len: "length ms = length (metrics example_dimensions) * length (rows example_table)"
    by blast
  have val: "processTableGroups ?sv ?cfg example_dimensions example_table =
      Inr [\<lparr>label = ''alpha - Count'', value = ''15'', color = Some ''rgb(128,0,0)'',
             bgColor = Some ''rgb(128,0,0)'', lightText = True, rowIndex = 0\<rparr>,
           \<lparr>label = ''beta - Count'', value = ''42'', color = Some ''rgb(255,0,0)'',
             bgColor = Some ''rgb(255,0,0)'', lightText = True, rowIndex = 1\<rparr>,
           \<lparr>label = ''alpha - Load'', value = ''3'', color = Some ''rgb(0,0,0)'',
             bgColor = Some ''rgb(0,0,0)'', lightText = True, rowIndex = 0\<rparr>,
           \<lparr>label = ''beta - Load'', value = ''-'', color = Some ''rgb(255,0,0)'',
             bgColor = Some ''rgb(255,0,0)'', lightText = True, rowIndex = 1\<rparr>]"
    by code_simp
  from res have "ms = projr (processTableGroups ?sv ?cfg example_dimensions example_table)"
    by simp
  with len sizes have "length ms = 4 \<and> map rowIndex ms = [0, 1, 0, 1] \<and>
      map label ms = [''alpha - Count'', ''beta - Count'', ''alpha - Load'', ''beta - Load'']"
    unfolding val by simp
  with res have "\<exists>ms. processTableGroups ?sv ?cfg example_dimensions example_table = Inr ms \<and>
      length ms = 4 \<and> map rowIndex ms = [0, 1, 0, 1] \<and>
      map label ms = [''alpha - Count'', ''beta - Count'', ''alpha - Load'', ''beta - Load'']"
    by (intro exI [of _ ms] conjI) simp_all
  moreover have "map_option accessor (bucket example_dimensions) = Some 0"
    "map accessor (metrics example_dimensions) = [1, 2]" "length (columns example_table) = 3"
    by (simp_all add: example_dimensions_def example_table_def)
  ultimately show ?thesis
    using ne by (intro conjI)
qed

text \<open>
  Claim C9. Every descriptor that \<open>processTableGroups\<close> returns for a configuration whose
  \<open>colorsRange\<close> has at most one range has \<open>color\<close> undefined, \<open>bgColor\<close> undefined and
  \<open>lightText\<close> false, whatever \<open>style.labelColor\<close> and \<open>style.bgColor\<close> are. In any returned
  descriptor \<open>color\<close> is set only if there are at least two ranges and \<open>style.labelColor\<close> is
  on, and \<open>bgColor\<close> only if there are at least two ranges and \<open>style.bgColor\<close> is on.
\<close>

theorem processTableGroups_colors_need_two_ranges:
  fixes sv :: "'a services"
  assumes "processTableGroups sv config dimensions table = Inr ms" and "m \<in> set ms"
  shows "(length (colorsRange config) \<le> 1 \<longrightarrow>
            color m = None \<and> bgColor m = None \<and> \<not> lightText m) \<and>
         (color m \<noteq> None \<longrightarrow> 1 < length (colorsRange config) \<and> style_labelColor (style config)) \<and>
         (bgColor m \<noteq> None \<longrightarrow> 1 < length (colorsRange config) \<and> style_bgColor (style config))"
proof -
  define P where "P = (\<lambda>m :: MetricVisMetric.
      (length (colorsRange config) \<le> 1 \<longrightarrow>
         color m = None \<and> bgColor m = None \<and> \<not> lightText m) \<and>
      (color m \<noteq> None \<longrightarrow> 1 < length (colorsRange config) \<and> style_labelColor (style config)) \<and>
      (bgColor m \<noteq> None \<longrightarrow> 1 < length (colorsRange config) \<and> style_bgColor (style config)))"
  define I where "I = (\<lambda>acc :: MetricVisMetric list. \<forall>m\<in>set acc. P m)"
  from assms(1) obtain r0 l :: Range and cs ls bc where run:
    "forEach (metrics dimensions)
       (\<lambda>metric _ metrics'.
          forEach (rows table)
            (\<lambda>row rowIndex' metrics'.
               case processRow sv config (range_from r0) (range_to l) ls cs bc
                      (js_nth (columns table) (accessor metric)) (deserialize sv (format metric))
                      row rowIndex' of
                 Inl e \<Rightarrow> Inl e
               | Inr m \<Rightarrow> Inr (metrics' @ [m]))
            0 metrics')
       0 [] = Inr ms"
    by (auto simp: processTableGroups_def Let_def split: option.splits sum.splits)
  have row_step: "I t'" if "I t"
    and "(case processRow sv config (range_from r0) (range_to l) ls cs bc column fmt row k of
            Inl e \<Rightarrow> Inl e | Inr m \<Rightarrow> Inr (t @ [m])) = Inr t'"
    for t t' column fmt row k
  proof -
    from that(2) obtain d
      where d: "processRow sv config (range_from r0) (range_to l) ls cs bc column fmt row k = Inr d"
        and t': "t' = t @ [d]"
      by (auto split: sum.splits)
    from processRow_fields [OF d] have "P d"
      unfolding P_def by blast
    with that(1) t' show ?thesis
      by (simp add: I_def)
  qed
  have metric_step: "I t'" if "I t"
    and "forEach (rows table)
           (\<lambda>row rowIndex' metrics'.
              case processRow sv config (range_from r0) (range_to l) ls cs bc column fmt
                     row rowIndex' of
                Inl e \<Rightarrow> Inl e
              | Inr m \<Rightarrow> Inr (metrics' @ [m]))
           0 t = Inr t'"
    for t t' column fmt
    using that(2,1) by (rule forEach_invariant) (rule row_step)
  have "I []"
    by (simp add: I_def)
  with run have "I ms"
    by (rule forEach_invariant) (rule metric_step)
  with assms(2) show ?thesis
    unfolding I_def P_def by blast
qed
theorem processTableGroups_colors_need_two_ranges_witness:
  "processTableGroups (example_services example_convert)
     ((example_config False False True True)
        \<lparr>colorsRange := [\<lparr>range_from = Fin 0, range_to = Fin 100\<rparr>]\<rparr>)
     example_dimensions example_table =
     Inr [\<lparr>label = ''alpha - Count'', value = ''15'', color = None, bgColor = None,
            lightText = False, rowIndex = 0\<rparr>,
          \<lparr>label = ''beta - Count'', value = ''42'', color = None, bgColor = None,
            lightText = False, rowIndex = 1\<rparr>,
          \<lparr>label = ''alpha - Load'', value = ''3'', color = None, bgColor = None,
            lightText = False, rowIndex = 0\<rparr>,
          \<lparr>label = ''beta - Load'', value = ''-'', color = None, bgColor = None,
            lightText = False, rowIndex = 1\<rparr>] \<and>
   length (colorsRange ((example_config False False True True)
        \<lparr>colorsRange := [\<lparr>range_from = Fin 0, range_to = Fin 100\<rparr>]\<rparr>)) \<le> 1 \<and>
   style_labelColor (style ((example_config False False True True)
        \<lparr>colorsRange := [\<lparr>range_from = Fin 0, range_to = Fin 100\<rparr>]\<rparr>)) \<and>
   style_bgColor (style ((example_config False False True True)
        \<lparr>colorsRange := [\<lparr>range_from = Fin 0, range_to = Fin 100\<rparr>]\<rparr>))"
proof -
  let ?cfg = "(example_config False False True True)
        \<lparr>colorsRange := [\<lparr>range_from = Fin 0, range_to = Fin 100\<rparr>]\<rparr>"
  let ?sv = "example_services example_convert"
  let ?m = "\<lparr>label = ''alpha - Count'', value = ''15'', color = None, bgColor = None,
            lightText = False, rowIndex = 0\<rparr>"
  let ?ms = "[?m,
          \<lparr>label = ''beta - Count'', value = ''42'', color = None, bgColor = None,
            lightText = False, rowIndex = 1\<rparr>,
          \<lparr>label = ''alpha - Load'', value = ''3'', color = None, bgColor = None,
            lightText = False, rowIndex = 0\<rparr>,
          \<lparr>label = ''beta - Load'', value = ''-'', color = None, bgColor = None,
            lightText = False, rowIndex = 1\<rparr>]"
  have run: "processTableGroups ?sv ?cfg example_dimensions example_table = Inr ?ms"
    by code_simp
  have mem: "?m \<in> set ?ms"
    by simp
  have one: "length (colorsRange ?cfg) \<le> 1"
    by (simp add: example_config_def)
  have flags: "style_labelColor (style ?cfg)" "style_bgColor (style ?cfg)"
    by (simp_all add: example_config_def)
  from processTableGroups_colors_need_two_ranges [OF run mem] one
  have "color ?m = None \<and> bgColor ?m = None \<and> \<not> lightText ?m"
    by blast
  with run one flags show ?thesis
    by simp
qed

section \<open>Percentage mode\<close>




end
